theory Spec2Isabelle
  imports Main
begin

section \<open>Data model of the flow-run agent (src/src/prefect/agent.py)\<close>

text \<open>
  Identifiers (Python \<open>UUID\<close>) are natural numbers, instants (\<open>pendulum.DateTime\<close>, UTC)
  are integers counting seconds. Exceptions are values; every constructor below stands for
  a subclass of Python's \<open>Exception\<close>, which is what the \<open>except Exception\<close> clauses of the
  agent catch.
\<close>

type_synonym uuid = nat
type_synonym datetime = int

datatype exn =
    Abort string
  | ObjectNotFound
  | KeyError string
  | TypeError
  | AttributeError
  | RuntimeError string
  | ValueError string
  | OtherError string

text \<open>Values held by a block document's \<open>data\<close> mapping. A Python dict keeps insertion
  order and has unique keys: it is an association list.\<close>

datatype json =
    JNull
  | JBool bool
  | JNum int
  | JStr string
  | JList "json list"
  | JDict "(string \<times> json) list"

text \<open>Modelled from the spec: the state types of \<open>prefect.orion.schemas.states\<close>, which is
  not among the sources; \<open>is_pending\<close> tests the type tag.\<close>

datatype state_type = SCHEDULED | PENDING | RUNNING | COMPLETED | FAILED | CANCELLED | CRASHED

datatype data_document = DataDocument string string

record state =
  st_type :: state_type
  st_message :: "string option"
  st_data :: "data_document option"

definition is_pending :: "state \<Rightarrow> bool" where
  "is_pending st = (st_type st = PENDING)"

definition Pending :: state where
  "Pending = \<lparr>st_type = PENDING, st_message = None, st_data = None\<rparr>"

definition Failed :: "string \<Rightarrow> data_document \<Rightarrow> state" where
  "Failed msg d = \<lparr>st_type = FAILED, st_message = Some msg, st_data = Some d\<rparr>"

record flow_run =
  fr_id :: uuid
  fr_state :: "state option"
  fr_deployment_id :: "uuid option"

record work_queue =
  wq_name :: string
  wq_id :: uuid
  wq_is_paused :: bool

record deployment =
  dp_infrastructure_document_id :: "uuid option"
  dp_infra_overrides :: "(string \<times> json) list option"

record block_document =
  bd_id :: "uuid option"
  bd_block_type :: string
  bd_data :: "(string \<times> json) list"

record infrastructure =
  inf_type :: string
  inf_fields :: "(string \<times> json) list"
  inf_block_document_id :: "uuid option"

section \<open>Dot-path overrides (get_infrastructure, lines 169-178)\<close>

text \<open>\<open>override.split(".")\<close>: the result is never empty.\<close>

fun split_dot :: "string \<Rightarrow> string list" where
  "split_dot [] = [[]]"
| "split_dot (c # cs) =
     (if c = CHR ''.'' then [] # split_dot cs
      else (case split_dot cs of [] \<Rightarrow> [[c]] | x # xs \<Rightarrow> (c # x) # xs))"

text \<open>\<open>data[field]\<close> with a string key: a dict looks the key up and raises \<open>KeyError\<close>
  when it is absent; every other value raises \<open>TypeError\<close>.\<close>

fun getitem :: "json \<Rightarrow> string \<Rightarrow> exn + json" where
  "getitem (JDict kvs) k = (case map_of kvs k of None \<Rightarrow> Inl (KeyError k) | Some v \<Rightarrow> Inr v)"
| "getitem _ k = Inl TypeError"

text \<open>The dict store \<open>d[k] = v\<close>: an existing key keeps its place, a new key goes last.\<close>

fun dict_store :: "(string \<times> json) list \<Rightarrow> string \<Rightarrow> json \<Rightarrow> (string \<times> json) list" where
  "dict_store [] k v = [(k, v)]"
| "dict_store ((k', v') # kvs) k v =
     (if k' = k then (k, v) # kvs else (k', v') # dict_store kvs k v)"

text \<open>\<open>data[field] = value\<close> with a string key: only a dict accepts it.\<close>

fun setitem :: "json \<Rightarrow> string \<Rightarrow> json \<Rightarrow> exn + json" where
  "setitem (JDict kvs) k v = Inr (JDict (dict_store kvs k v))"
| "setitem _ k v = Inl TypeError"

text \<open>The loop \<open>for field in nested_fields[:-1]: data = data[field]\<close>.\<close>

fun descend :: "json \<Rightarrow> string list \<Rightarrow> exn + json" where
  "descend data [] = Inr data"
| "descend data (seg # segs) =
     (case getitem data seg of Inl e \<Rightarrow> Inl e | Inr sub \<Rightarrow> descend sub segs)"

text \<open>The store is made on the object the descent stopped at, which is shared with the
  tree it was reached from: \<open>write_back root segs obj\<close> is the tree \<open>root\<close> with the object
  at \<open>segs\<close> replaced by its mutated version \<open>obj\<close>. It is only called on a path that the
  descent has followed.\<close>

fun write_back :: "json \<Rightarrow> string list \<Rightarrow> json \<Rightarrow> json" where
  "write_back root [] obj = obj"
| "write_back (JDict kvs) (seg # segs) obj =
     (case map_of kvs seg of
        None \<Rightarrow> JDict kvs
      | Some sub \<Rightarrow> JDict (dict_store kvs seg (write_back sub segs obj)))"
| "write_back root (seg # segs) obj = root"

text \<open>One iteration of the loop over \<open>deployment.infra_overrides\<close> (lines 172-178).\<close>

definition apply_override ::
  "(string \<times> json) list \<Rightarrow> string \<Rightarrow> json \<Rightarrow> exn + (string \<times> json) list" where
  "apply_override infra_dict override val =
     (let nested_fields = split_dot override in
      case descend (JDict infra_dict) (butlast nested_fields) of
        Inl e \<Rightarrow> Inl e
      | Inr data \<Rightarrow>
          (case setitem data (last nested_fields) val of
             Inl e \<Rightarrow> Inl e
           | Inr data' \<Rightarrow>
               (case write_back (JDict infra_dict) (butlast nested_fields) data' of
                  JDict kvs \<Rightarrow> Inr kvs
                | _ \<Rightarrow> Inl TypeError)))"

text \<open>The whole loop: overrides are applied in the mapping's order; the first exception
  ends it.\<close>

fun apply_overrides ::
  "(string \<times> json) list \<Rightarrow> (string \<times> json) list \<Rightarrow> exn + (string \<times> json) list" where
  "apply_overrides infra_dict [] = Inr infra_dict"
| "apply_overrides infra_dict ((override, val) # rest) =
     (case apply_override infra_dict override val of
        Inl e \<Rightarrow> Inl e
      | Inr infra_dict' \<Rightarrow> apply_overrides infra_dict' rest)"

section \<open>The agent, its collaborators and the record of what it does\<close>

text \<open>The fields of \<open>OrionAgent\<close>. \<open>work_queues\<close> is a Python set: the list holds its
  distinct elements in the order the set iterates them. \<open>task_group\<close> is \<open>None\<close> outside
  start/shutdown; inside, it holds the coordinators spawned on it with \<open>start_soon\<close> that
  have not finished yet, in spawning order. \<open>client\<close> is \<open>None\<close> or the open client.\<close>

record agent =
  work_queues :: "string list"
  prefetch_seconds :: "int option"
  submitting_flow_run_ids :: "uuid set"
  started :: bool
  task_group :: "flow_run list option"
  client :: "unit option"
  work_queue_cache_expiration :: "datetime option"
  work_queue_cache :: "work_queue list"
  default_infrastructure :: "infrastructure option"
  default_infrastructure_document_id :: "uuid option"

text \<open>What the logger is given: the message template and its arguments.\<close>

datatype log_level = DEBUG | INFO | ERROR

datatype message =
    CheckingForFlowRuns
  | CreatedWorkQueue string
  | FailedToCreateWorkQueue string
  | WorkQueuePaused string uuid
  | WorkQueueNotFound string uuid
  | LoggedException exn
  | SubmittingFlowRun uuid
  | CompletedSubmission uuid
  | FailedToSubmit uuid
  | AbortSignal uuid exn
  | FailedToUpdateState uuid
  | NonPendingState uuid state_type

text \<open>Every call that leaves the agent is recorded, in the order the calls are made; the
  lookups of work queues and the requests for runs are recorded with their outcome.\<close>

datatype event =
    Log log_level message
  | ReadWorkQueueByName string "exn + work_queue"
  | CreateWorkQueue string "exn + work_queue"
  | GetRunsInWorkQueue uuid nat datetime "exn + flow_run list"
  | ReadDeployment "uuid option"
  | ReadBlockDocument "uuid option"
  | ProposeState state uuid
  | TaskGroupStart flow_run infrastructure
  | TaskGroupStartSoon flow_run
  | ClientEnter
  | ClientExit
  | TaskGroupExit
  | SaveInfrastructure infrastructure

text \<open>The outside of the agent: the server behind the client, the dispatcher
  \<open>submit_flow_run\<close> run through \<open>task_group.start\<close>, anyio's task group, the block and
  serialisation libraries and the settings. None of them is among the sources, so each is a
  parameter; \<open>'w\<close> is whatever state the outside keeps. \<open>task_group_aexit\<close> is given the
  coordinators still held, the exception passed to \<open>shutdown\<close> and the in-flight set, which is
  the one field of the agent a coordinator writes.\<close>

record 'w env =
  read_work_queue_by_name :: "string \<Rightarrow> 'w \<Rightarrow> (exn + work_queue) \<times> 'w"
  create_work_queue :: "string \<Rightarrow> 'w \<Rightarrow> (exn + work_queue) \<times> 'w"
  get_runs_in_work_queue :: "uuid \<Rightarrow> nat \<Rightarrow> datetime \<Rightarrow> 'w \<Rightarrow> (exn + flow_run list) \<times> 'w"
  read_deployment :: "uuid option \<Rightarrow> 'w \<Rightarrow> (exn + deployment) \<times> 'w"
  read_block_document :: "uuid option \<Rightarrow> 'w \<Rightarrow> (exn + block_document) \<times> 'w"
  propose_state :: "state \<Rightarrow> uuid \<Rightarrow> 'w \<Rightarrow> (exn + state) \<times> 'w"
  submit_flow_run :: "flow_run \<Rightarrow> infrastructure \<Rightarrow> 'w \<Rightarrow> (exn + unit) \<times> 'w"
  from_block_document :: "block_document \<Rightarrow> exn + infrastructure"
  encode :: "string \<Rightarrow> exn \<Rightarrow> exn + data_document"
  prefetch_setting :: int
  client_aenter :: "'w \<Rightarrow> (exn + unit) \<times> 'w"
  client_aexit :: "exn option \<Rightarrow> 'w \<Rightarrow> (exn + unit) \<times> 'w"
  task_group_aexit ::
    "flow_run list \<Rightarrow> exn option \<Rightarrow> uuid set \<Rightarrow> 'w \<Rightarrow> (exn + unit) \<times> uuid set \<times> 'w"
  save_infrastructure :: "infrastructure \<Rightarrow> 'w \<Rightarrow> (exn + uuid) \<times> 'w"

record 'w io =
  io_world :: 'w
  io_trace :: "event list"

definition emit :: "event \<Rightarrow> 'w io \<Rightarrow> 'w io" where
  "emit ev io = io\<lparr>io_trace := io_trace io @ [ev]\<rparr>"

text \<open>A method call on \<open>self.client\<close>: \<open>AttributeError\<close> when the client is \<open>None\<close>,
  otherwise the call is made and recorded (\<open>ev\<close> builds the record from the outcome).\<close>

definition client_call ::
  "unit option \<Rightarrow> ('w \<Rightarrow> (exn + 'a) \<times> 'w) \<Rightarrow> ((exn + 'a) \<Rightarrow> event) \<Rightarrow> 'w io
     \<Rightarrow> (exn + 'a) \<times> 'w io" where
  "client_call cl f ev io =
     (case cl of
        None \<Rightarrow> (Inl AttributeError, io)
      | Some _ \<Rightarrow>
          (case f (io_world io) of
             (r, w') \<Rightarrow> (r, \<lparr>io_world = w', io_trace = io_trace io @ [ev r]\<rparr>)))"

section \<open>Construction (__init__, lines 26-60)\<close>

definition Process :: infrastructure where
  "Process = \<lparr>inf_type = ''process'', inf_fields = [], inf_block_document_id = None\<rparr>"

definition init ::
  "string list \<Rightarrow> int option \<Rightarrow> infrastructure option \<Rightarrow> uuid option \<Rightarrow> exn + agent" where
  "init wqs prefetch default_infra default_infra_id =
     (if default_infra \<noteq> None \<and> default_infra_id \<noteq> None
      then Inl (ValueError
        ''Provide only one of 'default_infrastructure' and 'default_infrastructure_document_id'.'')
      else Inr
        \<lparr>work_queues = remdups wqs,
         prefetch_seconds = prefetch,
         submitting_flow_run_ids = {},
         started = False,
         task_group = None,
         client = None,
         work_queue_cache_expiration = None,
         work_queue_cache = [],
         default_infrastructure =
           (case default_infra of
              Some i \<Rightarrow> Some i
            | None \<Rightarrow> (case default_infra_id of Some _ \<Rightarrow> None | None \<Rightarrow> Some Process)),
         default_infrastructure_document_id =
           (case default_infra of
              Some i \<Rightarrow> inf_block_document_id i
            | None \<Rightarrow> default_infra_id)\<rparr>)"

section \<open>The work-queue cache (get_work_queues, lines 62-99)\<close>

text \<open>\<open>get_work_queues\<close> is a generator: the body of the caller's \<open>async for\<close> runs at each
  \<open>yield\<close>, between two steps of the generator. The caller's loop body is the parameter
  \<open>body\<close>; it works on the caller's accumulator and on the outside, not on the agent.
  The result holds the exception that ended the iteration, if any.\<close>

type_synonym ('a, 'w) consumer = "work_queue \<Rightarrow> 'a \<times> 'w io \<Rightarrow> 'a \<times> 'w io"

text \<open>The loop \<open>for name in self.work_queues\<close> (lines 80-99).\<close>

fun reload_work_queues ::
  "'w env \<Rightarrow> ('a, 'w) consumer \<Rightarrow> string list \<Rightarrow> 'a \<Rightarrow> agent \<Rightarrow> 'w io
     \<Rightarrow> exn option \<times> 'a \<times> agent \<times> 'w io" where
  "reload_work_queues env body [] acc a io = (None, acc, a, io)"
| "reload_work_queues env body (name # names) acc a io =
     (case client_call (client a) (read_work_queue_by_name env name)
             (ReadWorkQueueByName name) io of
        (Inr work_queue, io1) \<Rightarrow>
          (case body work_queue (acc, io1) of
             (acc', io2) \<Rightarrow>
               reload_work_queues env body names acc'
                 (a\<lparr>work_queue_cache := work_queue_cache a @ [work_queue]\<rparr>) io2)
      | (Inl e, io1) \<Rightarrow>
          (if e = ObjectNotFound then
             (case client_call (client a) (create_work_queue env name)
                     (CreateWorkQueue name) io1 of
                (Inr work_queue, io2) \<Rightarrow>
                  (case body work_queue (acc, emit (Log INFO (CreatedWorkQueue name)) io2) of
                     (acc', io3) \<Rightarrow>
                       reload_work_queues env body names acc'
                         (a\<lparr>work_queue_cache := work_queue_cache a @ [work_queue]\<rparr>) io3)
              | (Inl exc, io2) \<Rightarrow>
                  reload_work_queues env body names acc a
                    (emit (Log ERROR (FailedToCreateWorkQueue name)) io2))
           else (Some e, acc, a, io1)))"

text \<open>\<open>(self._work_queue_cache_expiration or now) > now\<close>: a DateTime is never falsy.\<close>

definition cache_is_live :: "agent \<Rightarrow> datetime \<Rightarrow> bool" where
  "cache_is_live a now =
     ((case work_queue_cache_expiration a of None \<Rightarrow> now | Some e \<Rightarrow> e) > now)"

definition get_work_queues ::
  "'w env \<Rightarrow> datetime \<Rightarrow> ('a, 'w) consumer \<Rightarrow> 'a \<Rightarrow> agent \<Rightarrow> 'w io
     \<Rightarrow> exn option \<times> 'a \<times> agent \<times> 'w io" where
  "get_work_queues env now body acc a io =
     (if cache_is_live a now then
        (case foldl (\<lambda>s queue. body queue s) (acc, io) (work_queue_cache a) of
           (acc', io') \<Rightarrow> (None, acc', a, io'))
      else
        reload_work_queues env body (work_queues a) acc
          (a\<lparr>work_queue_cache := [], work_queue_cache_expiration := Some (now + 30)\<rparr>) io)"

section \<open>The agent loop (get_and_submit_flow_runs, lines 101-152)\<close>

text \<open>\<open>self.prefetch_seconds or PREFECT_AGENT_PREFETCH_SECONDS.value()\<close>: \<open>None\<close> and \<open>0\<close>
  both give the setting.\<close>

definition prefetch_window :: "'w env \<Rightarrow> agent \<Rightarrow> int" where
  "prefetch_window env a =
     (case prefetch_seconds a of
        None \<Rightarrow> prefetch_setting env
      | Some p \<Rightarrow> if p = 0 then prefetch_setting env else p)"

text \<open>The body of the loop over the work queues (lines 121-137).\<close>

definition process_queue ::
  "'w env \<Rightarrow> unit option \<Rightarrow> datetime \<Rightarrow> (flow_run list, 'w) consumer" where
  "process_queue env cl scheduled_before work_queue s =
     (case s of (submittable_runs, io) \<Rightarrow>
        if wq_is_paused work_queue then
          (submittable_runs,
           emit (Log INFO (WorkQueuePaused (wq_name work_queue) (wq_id work_queue))) io)
        else
          (case client_call cl (get_runs_in_work_queue env (wq_id work_queue) 10 scheduled_before)
                  (GetRunsInWorkQueue (wq_id work_queue) 10 scheduled_before) io of
             (Inr queue_runs, io1) \<Rightarrow> (submittable_runs @ queue_runs, io1)
           | (Inl e, io1) \<Rightarrow>
               (if e = ObjectNotFound then
                  (submittable_runs,
                   emit (Log ERROR
                     (WorkQueueNotFound (wq_name work_queue) (wq_id work_queue))) io1)
                else (submittable_runs, emit (Log ERROR (LoggedException e)) io1))))"

text \<open>The loop over \<open>submittable_runs\<close> (lines 139-150). \<open>start_soon\<close> on a task group
  that is \<open>None\<close> raises \<open>AttributeError\<close>, after the identifier was added.\<close>

fun submit_loop ::
  "flow_run list \<Rightarrow> agent \<Rightarrow> 'w io \<Rightarrow> exn option \<times> agent \<times> 'w io" where
  "submit_loop [] a io = (None, a, io)"
| "submit_loop (flow_run # rest) a io =
     (let io1 = emit (Log INFO (SubmittingFlowRun (fr_id flow_run))) io in
      if fr_id flow_run \<in> submitting_flow_run_ids a then submit_loop rest a io1
      else
        (let a1 = a\<lparr>submitting_flow_run_ids :=
                      insert (fr_id flow_run) (submitting_flow_run_ids a)\<rparr> in
         case task_group a1 of
           None \<Rightarrow> (Some AttributeError, a1, io1)
         | Some tg \<Rightarrow>
             submit_loop rest (a1\<lparr>task_group := Some (tg @ [flow_run])\<rparr>)
               (emit (TaskGroupStartSoon flow_run) io1)))"

text \<open>One tick. The clock is read twice: \<open>now_before\<close> at line 111, \<open>now\<close> at line 69.
  An exception leaves the fields as they were when it was raised.\<close>

definition get_and_submit_flow_runs ::
  "'w env \<Rightarrow> datetime \<Rightarrow> datetime \<Rightarrow> agent \<Rightarrow> 'w io
     \<Rightarrow> (exn + flow_run list) \<times> agent \<times> 'w io" where
  "get_and_submit_flow_runs env now_before now a io =
     (if \<not> started a then
        (Inl (RuntimeError ''Agent is not started. Use `async with OrionAgent()...`''), a, io)
      else
        (let io0 = emit (Log DEBUG CheckingForFlowRuns) io;
             scheduled_before = now_before + prefetch_window env a in
         case get_work_queues env now (process_queue env (client a) scheduled_before) [] a io0 of
           (Some e, submittable_runs, a1, io1) \<Rightarrow> (Inl e, a1, io1)
         | (None, submittable_runs, a1, io1) \<Rightarrow>
             (case submit_loop submittable_runs a1 io1 of
                (Some e, a2, io2) \<Rightarrow> (Inl e, a2, io2)
              | (None, a2, io2) \<Rightarrow> (Inr submittable_runs, a2, io2))))"

section \<open>The infrastructure resolver (get_infrastructure, lines 154-185)\<close>

text \<open>\<open>a or b\<close> on optional identifiers: a UUID is never falsy.\<close>

definition or_else :: "'a option \<Rightarrow> 'a option \<Rightarrow> 'a option" where
  "or_else x y = (case x of Some v \<Rightarrow> Some v | None \<Rightarrow> y)"

definition get_infrastructure ::
  "'w env \<Rightarrow> agent \<Rightarrow> flow_run \<Rightarrow> 'w io \<Rightarrow> (exn + infrastructure) \<times> 'w io" where
  "get_infrastructure env a flow_run io =
     (case client_call (client a) (read_deployment env (fr_deployment_id flow_run))
             (\<lambda>_. ReadDeployment (fr_deployment_id flow_run)) io of
        (Inl e, io1) \<Rightarrow> (Inl e, io1)
      | (Inr deployment, io1) \<Rightarrow>
          (let infrastructure_document_id =
                 or_else (dp_infrastructure_document_id deployment)
                   (default_infrastructure_document_id a) in
           case client_call (client a) (read_block_document env infrastructure_document_id)
                  (\<lambda>_. ReadBlockDocument infrastructure_document_id) io1 of
             (Inl e, io2) \<Rightarrow> (Inl e, io2)
           | (Inr infra_document, io2) \<Rightarrow>
               (case apply_overrides (bd_data infra_document)
                       (case dp_infra_overrides deployment of None \<Rightarrow> [] | Some ovs \<Rightarrow> ovs) of
                  Inl e \<Rightarrow> (Inl e, io2)
                | Inr infra_dict \<Rightarrow>
                    (from_block_document env (infra_document\<lparr>bd_data := infra_dict\<rparr>), io2))))"

section \<open>The submission coordinator (lines 187-254)\<close>

definition propose_pending_state ::
  "'w env \<Rightarrow> agent \<Rightarrow> flow_run \<Rightarrow> 'w io \<Rightarrow> (exn + bool) \<times> 'w io" where
  "propose_pending_state env a flow_run io =
     (case client_call (client a) (propose_state env Pending (fr_id flow_run))
             (\<lambda>_. ProposeState Pending (fr_id flow_run)) io of
        (Inl exc, io1) \<Rightarrow>
          (case exc of
             Abort _ \<Rightarrow> (Inr False, emit (Log INFO (AbortSignal (fr_id flow_run) exc)) io1)
           | _ \<Rightarrow> (Inr False, emit (Log ERROR (FailedToUpdateState (fr_id flow_run))) io1))
      | (Inr st, io1) \<Rightarrow>
          (if \<not> is_pending st then
             (Inr False, emit (Log INFO (NonPendingState (fr_id flow_run) (st_type st))) io1)
           else (Inr True, io1)))"

text \<open>The argument of \<open>propose_state\<close> is built inside the \<open>try\<close>, so an exception of the
  serialiser is handled like one of the call.\<close>

definition propose_failed_state ::
  "'w env \<Rightarrow> agent \<Rightarrow> flow_run \<Rightarrow> exn \<Rightarrow> 'w io \<Rightarrow> (exn + unit) \<times> 'w io" where
  "propose_failed_state env a flow_run exc io =
     (case (case encode env ''cloudpickle'' exc of
              Inl e \<Rightarrow> (Inl e, io)
            | Inr d \<Rightarrow>
                client_call (client a)
                  (propose_state env (Failed ''Submission failed.'' d) (fr_id flow_run))
                  (\<lambda>_. ProposeState (Failed ''Submission failed.'' d) (fr_id flow_run)) io) of
        (Inr _, io1) \<Rightarrow> (Inr (), io1)
      | (Inl e, io1) \<Rightarrow>
          (case e of
             Abort _ \<Rightarrow> (Inr (), io1)
           | _ \<Rightarrow> (Inr (), emit (Log ERROR (FailedToUpdateState (fr_id flow_run))) io1)))"

text \<open>\<open>self.task_group.start(submit_flow_run, flow_run, infrastructure)\<close>: returns when the
  dispatcher has reported that the workload started, raises what the dispatcher raised.\<close>

definition task_group_start ::
  "'w env \<Rightarrow> agent \<Rightarrow> flow_run \<Rightarrow> infrastructure \<Rightarrow> 'w io \<Rightarrow> (exn + unit) \<times> 'w io" where
  "task_group_start env a flow_run infra io =
     (case task_group a of
        None \<Rightarrow> (Inl AttributeError, io)
      | Some _ \<Rightarrow>
          (case submit_flow_run env flow_run infra (io_world io) of
             (r, w') \<Rightarrow>
               (r, \<lparr>io_world = w', io_trace = io_trace io @ [TaskGroupStart flow_run infra]\<rparr>)))"

text \<open>\<open>self.submitting_flow_run_ids.remove(flow_run.id)\<close>: \<open>KeyError\<close> on a missing
  element.\<close>

definition remove_submitting :: "uuid \<Rightarrow> agent \<Rightarrow> exn + agent" where
  "remove_submitting i a =
     (if i \<in> submitting_flow_run_ids a
      then Inr (a\<lparr>submitting_flow_run_ids := submitting_flow_run_ids a - {i}\<rparr>)
      else Inl (KeyError ''flow_run.id''))"

definition finish_run :: "flow_run \<Rightarrow> agent \<Rightarrow> 'w io \<Rightarrow> (exn + unit) \<times> agent \<times> 'w io" where
  "finish_run flow_run a io =
     (case remove_submitting (fr_id flow_run) a of
        Inl e \<Rightarrow> (Inl e, a, io)
      | Inr a' \<Rightarrow> (Inr (), a', io))"

definition submit_run ::
  "'w env \<Rightarrow> flow_run \<Rightarrow> agent \<Rightarrow> 'w io \<Rightarrow> (exn + unit) \<times> agent \<times> 'w io" where
  "submit_run env flow_run a io =
     (case propose_pending_state env a flow_run io of
        (Inl e, io1) \<Rightarrow> (Inl e, a, io1)
      | (Inr ready_to_submit, io1) \<Rightarrow>
          (if ready_to_submit then
             (case get_infrastructure env a flow_run io1 of
                (Inl e, io2) \<Rightarrow> (Inl e, a, io2)
              | (Inr infra, io2) \<Rightarrow>
                  (case task_group_start env a flow_run infra io2 of
                     (Inr _, io3) \<Rightarrow>
                       finish_run flow_run a
                         (emit (Log INFO (CompletedSubmission (fr_id flow_run))) io3)
                   | (Inl exc, io3) \<Rightarrow>
                       (case propose_failed_state env a flow_run exc
                               (emit (Log ERROR (FailedToSubmit (fr_id flow_run))) io3) of
                          (Inl e, io4) \<Rightarrow> (Inl e, a, io4)
                        | (Inr _, io4) \<Rightarrow> finish_run flow_run a io4)))
           else finish_run flow_run a io1))"

section \<open>Lifecycle (start and shutdown, lines 257-278)\<close>

definition start :: "'w env \<Rightarrow> agent \<Rightarrow> 'w io \<Rightarrow> (exn + unit) \<times> agent \<times> 'w io" where
  "start env a io =
     (let a1 = a\<lparr>started := True, task_group := Some [], client := Some ()\<rparr> in
      case client_aenter env (io_world io) of
        (Inl e, w1) \<Rightarrow> (Inl e, a1, \<lparr>io_world = w1, io_trace = io_trace io @ [ClientEnter]\<rparr>)
      | (Inr _, w1) \<Rightarrow>
          (let io1 = \<lparr>io_world = w1, io_trace = io_trace io @ [ClientEnter]\<rparr> in
           case default_infrastructure a1 of
             None \<Rightarrow> (Inr (), a1, io1)
           | Some infra \<Rightarrow>
               (if default_infrastructure_document_id a1 \<noteq> None then (Inr (), a1, io1)
                else
                  (case save_infrastructure env infra (io_world io1) of
                     (Inl e, w2) \<Rightarrow>
                       (Inl e, a1,
                        \<lparr>io_world = w2, io_trace = io_trace io1 @ [SaveInfrastructure infra]\<rparr>)
                   | (Inr i, w2) \<Rightarrow>
                       (Inr (), a1\<lparr>default_infrastructure_document_id := Some i\<rparr>,
                        \<lparr>io_world = w2,
                         io_trace = io_trace io1 @ [SaveInfrastructure infra]\<rparr>)))))"

text \<open>\<open>shutdown(*exc_info)\<close>. \<open>self.task_group.__aexit__\<close> and \<open>self.client.__aexit__\<close> are
  attribute lookups first: on \<open>None\<close> they raise \<open>AttributeError\<close>. The five fields are reset
  only when both calls have returned.\<close>

definition shutdown ::
  "'w env \<Rightarrow> exn option \<Rightarrow> agent \<Rightarrow> 'w io \<Rightarrow> (exn + unit) \<times> agent \<times> 'w io" where
  "shutdown env exc_info a io =
     (let a1 = a\<lparr>started := False\<rparr> in
      case task_group a1 of
        None \<Rightarrow> (Inl AttributeError, a1, io)
      | Some tg \<Rightarrow>
          (case task_group_aexit env tg exc_info (submitting_flow_run_ids a1) (io_world io) of
             (r, ids, w1) \<Rightarrow>
               (let a2 = a1\<lparr>submitting_flow_run_ids := ids\<rparr>;
                    io1 = \<lparr>io_world = w1, io_trace = io_trace io @ [TaskGroupExit]\<rparr> in
                case r of
                  Inl e \<Rightarrow> (Inl e, a2, io1)
                | Inr _ \<Rightarrow>
                    (case client_call (client a2) (client_aexit env exc_info)
                            (\<lambda>_. ClientExit) io1 of
                       (Inl e, io2) \<Rightarrow> (Inl e, a2, io2)
                     | (Inr _, io2) \<Rightarrow>
                         (Inr (),
                          a2\<lparr>task_group := None,
                             client := None,
                             submitting_flow_run_ids := {},
                             work_queue_cache_expiration := None,
                             work_queue_cache := []\<rparr>,
                          io2)))))"

section \<open>Reading the record of calls\<close>

text \<open>The events an operation added to the record.\<close>

definition new_events :: "'w io \<Rightarrow> 'w io \<Rightarrow> event list" where
  "new_events io io' = drop (length (io_trace io)) (io_trace io')"

fun is_dispatch :: "event \<Rightarrow> bool" where
  "is_dispatch (TaskGroupStart _ _) = True"
| "is_dispatch _ = False"

fun is_failed_proposal :: "event \<Rightarrow> bool" where
  "is_failed_proposal (ProposeState st _) = (st_type st = FAILED)"
| "is_failed_proposal _ = False"

fun spawns :: "uuid \<Rightarrow> event \<Rightarrow> bool" where
  "spawns i (TaskGroupStartSoon flow_run) = (fr_id flow_run = i)"
| "spawns i _ = False"

fun dispatches :: "uuid \<Rightarrow> event \<Rightarrow> bool" where
  "dispatches i (TaskGroupStart flow_run _) = (fr_id flow_run = i)"
| "dispatches i _ = False"

fun fetched :: "event \<Rightarrow> flow_run list" where
  "fetched (GetRunsInWorkQueue _ _ _ (Inr queue_runs)) = queue_runs"
| "fetched _ = []"

text \<open>The requests for runs an event stands for (queue identifier, limit,
  \<open>scheduled_before\<close>), and the paused queues it reports (name, identifier).\<close>

fun requested :: "event \<Rightarrow> (uuid \<times> nat \<times> datetime) list" where
  "requested (GetRunsInWorkQueue i limit scheduled_before _) = [(i, limit, scheduled_before)]"
| "requested _ = []"

fun paused_logged :: "event \<Rightarrow> (string \<times> uuid) list" where
  "paused_logged (Log INFO (WorkQueuePaused name i)) = [(name, i)]"
| "paused_logged _ = []"

text \<open>The queue names an event looks up on the server, and the work queues an event
  obtains from it (read by name, or created).\<close>

fun looked_up :: "event \<Rightarrow> string list" where
  "looked_up (ReadWorkQueueByName name _) = [name]"
| "looked_up _ = []"

fun obtained :: "event \<Rightarrow> work_queue list" where
  "obtained (ReadWorkQueueByName _ (Inr work_queue)) = [work_queue]"
| "obtained (CreateWorkQueue _ (Inr work_queue)) = [work_queue]"
| "obtained _ = []"

text \<open>What the loop over the work queues leaves in the record, told from the queues
  \<open>ys\<close> it was given and the runs \<open>runs\<close> it collected: the fetched runs are the collected
  ones, there is one request (limit 10, the tick's \<open>scheduled_before\<close>) per queue that is
  not paused, in order, and none at all without a client; one log line per paused queue;
  no coordinator is spawned.\<close>

definition fetch_rel ::
  "unit option \<Rightarrow> datetime \<Rightarrow> event list \<Rightarrow> work_queue list \<Rightarrow> flow_run list \<Rightarrow> bool" where
  "fetch_rel cl b t ys runs =
     (runs = concat (map fetched t) \<and>
      concat (map requested t) =
        (if cl = None then []
         else map (\<lambda>q. (wq_id q, 10, b)) (filter (\<lambda>q. \<not> wq_is_paused q) ys)) \<and>
      concat (map paused_logged t) = map (\<lambda>q. (wq_name q, wq_id q)) (filter wq_is_paused ys) \<and>
      list_all (\<lambda>ev. case ev of TaskGroupStartSoon _ \<Rightarrow> False | _ \<Rightarrow> True) t)"

text \<open>What the loop over \<open>submittable_runs\<close> leaves in the record \<open>t\<close>, told for one
  identifier \<open>i\<close>, from the in-flight set before (\<open>ids\<close>) and after (\<open>ids'\<close>); \<open>ok\<close> says that
  the loop ended without an exception. Nothing is fetched or requested; at most one
  coordinator is spawned for \<open>i\<close>, none when \<open>i\<close> was in flight, and exactly one when \<open>i\<close>
  was not in flight and is among the runs; a spawned identifier is in flight afterwards.\<close>

definition spawn_rel ::
  "uuid \<Rightarrow> flow_run list \<Rightarrow> uuid set \<Rightarrow> uuid set \<Rightarrow> bool \<Rightarrow> event list \<Rightarrow> bool" where
  "spawn_rel i runs ids ids' ok t =
     (concat (map fetched t) = [] \<and> concat (map requested t) = [] \<and>
      concat (map paused_logged t) = [] \<and>
      ids \<subseteq> ids' \<and>
      length (filter (spawns i) t) \<le> 1 \<and>
      (i \<in> ids \<longrightarrow> filter (spawns i) t = []) \<and>
      (filter (spawns i) t \<noteq> [] \<longrightarrow> i \<in> ids') \<and>
      (ok \<and> i \<in> fr_id ` set runs \<longrightarrow> i \<in> ids') \<and>
      (ok \<and> i \<in> fr_id ` set runs \<and> i \<notin> ids \<longrightarrow> length (filter (spawns i) t) = 1))"

text \<open>What a stretch of an agent's lifetime leaves in the record \<open>t\<close>, told for one
  identifier \<open>i\<close>: at most one coordinator is spawned for \<open>i\<close>, none when \<open>i\<close> was in
  flight, and \<open>i\<close> is in flight afterwards when it was before or was spawned.\<close>

definition once_rel :: "uuid \<Rightarrow> uuid set \<Rightarrow> uuid set \<Rightarrow> event list \<Rightarrow> bool" where
  "once_rel i ids ids' t =
     ((i \<in> ids \<longrightarrow> i \<in> ids') \<and>
      length (filter (spawns i) t) \<le> 1 \<and>
      (i \<in> ids \<longrightarrow> filter (spawns i) t = []) \<and>
      (filter (spawns i) t \<noteq> [] \<longrightarrow> i \<in> ids'))"

text \<open>The record grew from \<open>io\<close> to \<open>io'\<close> and no coordinator was spawned for \<open>i\<close>.\<close>

definition no_spawn_between :: "uuid \<Rightarrow> 'w io \<Rightarrow> 'w io \<Rightarrow> bool" where
  "no_spawn_between i io io' =
     (\<exists>t. io_trace io' = io_trace io @ t \<and> filter (spawns i) t = [])"

text \<open>What the code keeps true of the cache: without an expiration the cache is empty.\<close>

definition cache_inv :: "agent \<Rightarrow> bool" where
  "cache_inv a = (work_queue_cache_expiration a = None \<longrightarrow> work_queue_cache a = [])"

section \<open>An agent's lifetime\<close>

text \<open>What happens to a started agent, one step at a time: the ticker calls
  \<open>get_and_submit_flow_runs\<close> (with the two clock readings), or the \<open>k\<close>-th coordinator held
  by the task group runs \<open>submit_run\<close> to its end. A coordinator writes the agent's fields
  only in its last statement, so its steps are taken together.\<close>

datatype action = Tick datetime datetime | Coordinator nat

fun perform :: "'w env \<Rightarrow> action \<Rightarrow> agent \<times> 'w io \<Rightarrow> agent \<times> 'w io" where
  "perform env (Tick now_before now) (a, io) =
     (case get_and_submit_flow_runs env now_before now a io of (r, a', io') \<Rightarrow> (a', io'))"
| "perform env (Coordinator k) (a, io) =
     (case task_group a of
        None \<Rightarrow> (a, io)
      | Some tg \<Rightarrow>
          (if k < length tg then
             (case submit_run env (tg ! k) (a\<lparr>task_group := Some (take k tg @ drop (Suc k) tg)\<rparr>)
                     io of
                (r, a', io') \<Rightarrow> (a', io'))
           else (a, io)))"

definition lifetime :: "'w env \<Rightarrow> action list \<Rightarrow> agent \<times> 'w io \<Rightarrow> agent \<times> 'w io" where
  "lifetime env acts s = foldl (\<lambda>s act. perform env act s) s acts"

text \<open>No coordinator of a run with the identifier \<open>i\<close> finishes during the steps \<open>acts\<close>
  taken from \<open>s\<close>: every coordinator step runs a coordinator of another run.\<close>

fun others_only :: "'w env \<Rightarrow> uuid \<Rightarrow> action list \<Rightarrow> agent \<times> 'w io \<Rightarrow> bool" where
  "others_only env i [] s = True"
| "others_only env i (act # acts) s =
     ((case act of
         Tick _ _ \<Rightarrow> True
       | Coordinator k \<Rightarrow>
           (case task_group (fst s) of
              None \<Rightarrow> True
            | Some tg \<Rightarrow> k < length tg \<longrightarrow> fr_id (tg ! k) \<noteq> i)) \<and>
      others_only env i acts (perform env act s))"

text \<open>The invariant of section 3 of the specification, in its words: the cache is either
  empty with no expiration, or non-empty with an expiration that is not before \<open>now\<close>.\<close>

definition spec_cache_invariant :: "agent \<Rightarrow> datetime \<Rightarrow> bool" where
  "spec_cache_invariant a now =
     ((work_queue_cache a = [] \<and> work_queue_cache_expiration a = None) \<or>
      (work_queue_cache a \<noteq> [] \<and>
       (case work_queue_cache_expiration a of None \<Rightarrow> False | Some e \<Rightarrow> now \<le> e)))"

section \<open>A concrete server\<close>

text \<open>One deployment (3) bound to block document 5, one run (7) of it, two work queues: q1
  (identifier 1) holding the run and q2 (identifier 2), paused. Nothing else exists and no
  queue can be created. The server's answer to a Pending proposal, the deployment's
  overrides and the dispatcher's outcome are the parameters.\<close>

definition run7 :: flow_run where
  "run7 = \<lparr>fr_id = 7, fr_state = None, fr_deployment_id = Some 3\<rparr>"

text \<open>Run 8 belongs to deployment 4, which the server no longer has.\<close>

definition run8 :: flow_run where
  "run8 = \<lparr>fr_id = 8, fr_state = None, fr_deployment_id = Some 4\<rparr>"

definition q1 :: work_queue where
  "q1 = \<lparr>wq_name = ''q1'', wq_id = 1, wq_is_paused = False\<rparr>"

definition q2 :: work_queue where
  "q2 = \<lparr>wq_name = ''q2'', wq_id = 2, wq_is_paused = True\<rparr>"

definition doc5 :: block_document where
  "doc5 = \<lparr>bd_id = Some 5, bd_block_type = ''process'',
            bd_data = [(''env'', JDict []), (''command'', JNull)]\<rparr>"

definition server ::
  "(exn + state) \<Rightarrow> (string \<times> json) list option \<Rightarrow> (exn + unit) \<Rightarrow> unit env" where
  "server pending_reply overrides dispatch_reply =
     \<lparr>read_work_queue_by_name =
        (\<lambda>name w. (if name = ''q1'' then Inr q1 else if name = ''q2'' then Inr q2
                    else Inl ObjectNotFound, w)),
      create_work_queue = (\<lambda>name w. (Inl (OtherError ''not allowed''), w)),
      get_runs_in_work_queue =
        (\<lambda>i limit scheduled_before w. (if i = 1 then Inr [run7] else Inl ObjectNotFound, w)),
      read_deployment =
        (\<lambda>i w. (if i = Some 3
                 then Inr \<lparr>dp_infrastructure_document_id = Some 5,
                           dp_infra_overrides = overrides\<rparr>
                 else Inl ObjectNotFound, w)),
      read_block_document = (\<lambda>i w. (if i = Some 5 then Inr doc5 else Inl ObjectNotFound, w)),
      propose_state = (\<lambda>st i w. (if st_type st = PENDING then pending_reply else Inr st, w)),
      submit_flow_run = (\<lambda>flow_run infra w. (dispatch_reply, w)),
      from_block_document =
        (\<lambda>doc. Inr \<lparr>inf_type = bd_block_type doc, inf_fields = bd_data doc,
                      inf_block_document_id = bd_id doc\<rparr>),
      encode = (\<lambda>enc exc. Inr (DataDocument enc ''blob'')),
      prefetch_setting = 10,
      client_aenter = (\<lambda>w. (Inr (), w)),
      client_aexit = (\<lambda>exc_info w. (Inr (), w)),
      task_group_aexit = (\<lambda>tg exc_info ids w. (Inr (), ids, w)),
      save_infrastructure = (\<lambda>infra w. (Inr 9, w))\<rparr>"

text \<open>The same server with a dispatcher that raises and a serialiser that cannot serialise
  what it raised.\<close>

definition unpicklable_server :: "unit env" where
  "unpicklable_server =
     (server (Inr Pending) None (Inl (OtherError ''boom'')))
       \<lparr>encode := (\<lambda>enc exc. Inl TypeError)\<rparr>"

definition io0 :: "unit io" where
  "io0 = \<lparr>io_world = (), io_trace = []\<rparr>"

text \<open>An agent as \<open>start\<close> leaves it, with the given queue names and in-flight set.\<close>

definition started_agent :: "string list \<Rightarrow> uuid set \<Rightarrow> agent" where
  "started_agent wqs ids =
     \<lparr>work_queues = wqs,
      prefetch_seconds = None,
      submitting_flow_run_ids = ids,
      started = True,
      task_group = Some [],
      client = Some (),
      work_queue_cache_expiration = None,
      work_queue_cache = [],
      default_infrastructure = Some Process,
      default_infrastructure_document_id = Some 9\<rparr>"

section \<open>Dot-path overrides: missing segments\<close>

lemma descend_append:
  "descend d (xs @ ys) = (case descend d xs of Inl e \<Rightarrow> Inl e | Inr s \<Rightarrow> descend s ys)"
  by (induction xs arbitrary: d) (auto split: sum.splits)

lemma dict_store_new: "map_of kvs k = None \<Longrightarrow> dict_store kvs k v = kvs @ [(k, v)]"
  by (induction kvs) (auto split: if_splits)

lemma map_of_dict_store: "map_of (dict_store kvs k v) k = Some v"
  by (induction kvs) auto

lemma descend_write_back:
  "descend root pre = Inr x \<Longrightarrow> descend (write_back root pre obj) pre = Inr obj"
proof (induction pre arbitrary: root)
  case Nil
  then show ?case by simp
next
  case (Cons seg segs)
  then show ?case
    by (cases root) (auto simp: map_of_dict_store split: option.splits sum.splits)
qed

lemma write_back_dict:
  "pre \<noteq> [] \<Longrightarrow> \<exists>kvs'. write_back (JDict kvs) pre obj = JDict kvs'"
  by (cases pre) (auto split: option.splits)

text \<open>One override, on a path \<open>pre @ k # rest\<close> whose descent through \<open>pre\<close> arrives at a
  mapping \<open>kvs\<close> without the key \<open>k\<close>.\<close>

lemma override_missing_segment:
  assumes "split_dot override = pre @ k # rest"
    and "descend (JDict infra_dict) pre = Inr (JDict kvs)"
    and "map_of kvs k = None"
  shows "(rest \<noteq> [] \<longrightarrow> apply_override infra_dict override v = Inl (KeyError k)) \<and>
         (rest = [] \<longrightarrow>
            (\<exists>d'. apply_override infra_dict override v = Inr d' \<and>
                  descend (JDict d') pre = Inr (JDict (kvs @ [(k, v)]))))"
proof (intro conjI impI)
  assume "rest \<noteq> []"
  then have "butlast (pre @ k # rest) = pre @ k # butlast rest"
    by (simp add: butlast_append)
  then show "apply_override infra_dict override v = Inl (KeyError k)"
    using assms by (simp add: apply_override_def descend_append)
next
  assume r: "rest = []"
  let ?obj = "JDict (kvs @ [(k, v)])"
  have d: "descend (write_back (JDict infra_dict) pre ?obj) pre = Inr ?obj"
    using assms(2) by (rule descend_write_back)
  obtain d' where w: "write_back (JDict infra_dict) pre ?obj = JDict d'"
    using write_back_dict [of pre infra_dict ?obj] by (cases pre) auto
  have "apply_override infra_dict override v = Inr d'"
    using assms r w by (simp add: apply_override_def dict_store_new)
  with d w show "\<exists>d'. apply_override infra_dict override v = Inr d' \<and>
                  descend (JDict d') pre = Inr (JDict (kvs @ [(k, v)]))"
    by auto
qed

section \<open>The submission coordinator: claim, dispatch, report\<close>

lemma propose_pending_state_cases:
  assumes "propose_pending_state env a fr io = (r, io1)"
  shows "(r = Inr True \<and> client a \<noteq> None \<and>
            (\<exists>st. fst (propose_state env Pending (fr_id fr) (io_world io)) = Inr st \<and> is_pending st) \<and>
            io_trace io1 = io_trace io @ [ProposeState Pending (fr_id fr)]) \<or>
         (r = Inr False \<and>
            (client a = None \<or> (\<exists>e. fst (propose_state env Pending (fr_id fr) (io_world io)) = Inl e) \<or>
             (\<exists>st. fst (propose_state env Pending (fr_id fr) (io_world io)) = Inr st \<and> \<not> is_pending st)) \<and>
            (\<exists>t. io_trace io1 = io_trace io @ t \<and> (\<forall>ev \<in> set t. \<not> is_dispatch ev \<and> \<not> is_failed_proposal ev)))"
  using assms
  by (auto simp: propose_pending_state_def client_call_def emit_def Pending_def
      split: option.splits prod.splits sum.splits exn.splits if_splits)

lemma get_infrastructure_trace:
  "get_infrastructure env a fr io = (r, io') \<Longrightarrow>
     \<exists>t. io_trace io' = io_trace io @ t \<and> (\<forall>ev \<in> set t. \<not> is_dispatch ev \<and> \<not> is_failed_proposal ev)"
  by (auto simp: get_infrastructure_def client_call_def Let_def
      split: option.splits prod.splits sum.splits)

lemma task_group_start_trace:
  "task_group_start env a fr infra io = (r, io') \<Longrightarrow>
     io' = io \<or> io_trace io' = io_trace io @ [TaskGroupStart fr infra]"
  by (auto simp: task_group_start_def split: option.splits prod.splits)

lemma propose_failed_state_never_raises:
  "fst (propose_failed_state env a fr exc io) = Inr ()"
  by (auto simp: propose_failed_state_def split: sum.splits prod.splits exn.splits)

lemma finish_run_removes:
  "finish_run fr a io = (r, a', io') \<Longrightarrow>
     io' = io \<and> fr_id fr \<notin> submitting_flow_run_ids a' \<and>
     submitting_flow_run_ids a' = submitting_flow_run_ids a - {fr_id fr}"
  by (auto simp: finish_run_def remove_submitting_def split: if_splits)

lemmas coordinator_defs =
  submit_run_def propose_pending_state_def propose_failed_state_def get_infrastructure_def
  task_group_start_def finish_run_def remove_submitting_def client_call_def emit_def
  new_events_def or_else_def apply_override_def is_pending_def Pending_def Failed_def Let_def

lemmas server_defs =
  server_def started_agent_def io0_def run7_def run8_def q1_def q2_def doc5_def Process_def

text \<open>
  Claim C3. A run is handed to an infrastructure (a \<open>task_group.start\<close> of the dispatcher
  is recorded) only if the client is open and the server answered the Pending proposal with
  a pending state. If the proposal raised (Abort or any other exception, a missing client
  included) or returned a state that is not pending, \<open>_propose_pending_state\<close> returns
  \<open>False\<close> and the coordinator records neither a dispatch nor a Failed proposal.
\<close>

theorem claim_gates_submission:
  "(list_ex is_dispatch (new_events io (snd (snd (submit_run env fr a io)))) \<longrightarrow>
      client a \<noteq> None \<and>
      (\<exists>st. fst (propose_state env Pending (fr_id fr) (io_world io)) = Inr st \<and>
            is_pending st)) \<and>
   (client a = None \<or>
    (\<exists>e. fst (propose_state env Pending (fr_id fr) (io_world io)) = Inl e) \<or>
    (\<exists>st. fst (propose_state env Pending (fr_id fr) (io_world io)) = Inr st \<and>
          \<not> is_pending st) \<longrightarrow>
      fst (propose_pending_state env a fr io) = Inr False \<and>
      \<not> list_ex is_dispatch (new_events io (snd (snd (submit_run env fr a io)))) \<and>
      \<not> list_ex is_failed_proposal (new_events io (snd (snd (submit_run env fr a io)))))"
proof -
  obtain rp io1 where p: "propose_pending_state env a fr io = (rp, io1)"
    by (cases "propose_pending_state env a fr io")
  from propose_pending_state_cases [OF p] show ?thesis
  proof
    assume "rp = Inr True \<and> client a \<noteq> None \<and>
      (\<exists>st. fst (propose_state env Pending (fr_id fr) (io_world io)) = Inr st \<and>
            is_pending st) \<and>
      io_trace io1 = io_trace io @ [ProposeState Pending (fr_id fr)]"
    then show ?thesis by auto
  next
    assume f: "rp = Inr False \<and>
      (client a = None \<or>
       (\<exists>e. fst (propose_state env Pending (fr_id fr) (io_world io)) = Inl e) \<or>
       (\<exists>st. fst (propose_state env Pending (fr_id fr) (io_world io)) = Inr st \<and>
             \<not> is_pending st)) \<and>
      (\<exists>t. io_trace io1 = io_trace io @ t \<and>
           (\<forall>ev \<in> set t. \<not> is_dispatch ev \<and> \<not> is_failed_proposal ev))"
    then have "submit_run env fr a io = finish_run fr a io1"
      using p by (simp add: submit_run_def)
    then have "snd (snd (submit_run env fr a io)) = io1"
      by (simp add: finish_run_def split: sum.splits)
    with f p show ?thesis
      by (auto simp: new_events_def list_ex_iff)
  qed
qed

theorem claim_gates_submission_witness:
  "fst (propose_pending_state
          (server (Inr \<lparr>st_type = RUNNING, st_message = None, st_data = None\<rparr>) None (Inr ()))
          (started_agent [''q1''] {7}) run7 io0) = Inr False \<and>
   \<not> list_ex is_dispatch (new_events io0 (snd (snd (submit_run
          (server (Inr \<lparr>st_type = RUNNING, st_message = None, st_data = None\<rparr>) None (Inr ()))
          run7 (started_agent [''q1''] {7}) io0)))) \<and>
   \<not> list_ex is_failed_proposal (new_events io0 (snd (snd (submit_run
          (server (Inr \<lparr>st_type = RUNNING, st_message = None, st_data = None\<rparr>) None (Inr ()))
          run7 (started_agent [''q1''] {7}) io0)))) \<and>
   list_ex is_dispatch (new_events io0 (snd (snd (submit_run
          (server (Inr Pending) None (Inr ())) run7 (started_agent [''q1''] {7}) io0)))) \<and>
   (\<exists>st. fst (propose_state (server (Inr Pending) None (Inr ())) Pending (fr_id run7)
                 (io_world io0)) = Inr st \<and> is_pending st)"
  using claim_gates_submission
          [where env = "server (Inr \<lparr>st_type = RUNNING, st_message = None, st_data = None\<rparr>)
                           None (Inr ())"
             and fr = run7 and a = "started_agent [''q1''] {7}" and io = io0]
        claim_gates_submission
          [where env = "server (Inr Pending) None (Inr ())"
             and fr = run7 and a = "started_agent [''q1''] {7}" and io = io0]
  by (simp add: coordinator_defs server_defs)

lemma propose_failed_state_events:
  "new_events iox (snd (propose_failed_state env a fr exc iox)) =
     (case encode env ''cloudpickle'' exc of
        Inl (Abort _) \<Rightarrow> []
      | Inl _ \<Rightarrow> [Log ERROR (FailedToUpdateState (fr_id fr))]
      | Inr d \<Rightarrow>
          (case client a of
             None \<Rightarrow> [Log ERROR (FailedToUpdateState (fr_id fr))]
           | Some _ \<Rightarrow>
               ProposeState (Failed ''Submission failed.'' d) (fr_id fr) #
                 (case fst (propose_state env (Failed ''Submission failed.'' d) (fr_id fr)
                              (io_world iox)) of
                    Inr _ \<Rightarrow> []
                  | Inl (Abort _) \<Rightarrow> []
                  | Inl _ \<Rightarrow> [Log ERROR (FailedToUpdateState (fr_id fr))])))"
  by (auto simp: propose_failed_state_def client_call_def emit_def new_events_def
      split: sum.splits prod.splits exn.splits option.splits)

text \<open>
  Claim C4, as stated, at a dispatch that raises an exception the serialiser cannot
  serialise: the run is handed to the dispatcher, the dispatcher raises, the coordinator
  logs the failure, and no Failed state is proposed. The payload is built inside the \<open>try\<close>
  of \<open>_propose_failed_state\<close>, so the serialiser's exception is logged and absorbed before
  \<open>propose_state\<close> is called.
\<close>

theorem unserialisable_exception_unreported:
  "list_ex is_dispatch (new_events io0 (snd (snd (submit_run unpicklable_server run7
      (started_agent [''q1''] {7}) io0)))) \<and>
   Log ERROR (FailedToSubmit 7) \<in> set (new_events io0 (snd (snd (submit_run unpicklable_server
      run7 (started_agent [''q1''] {7}) io0)))) \<and>
   \<not> list_ex is_failed_proposal (new_events io0 (snd (snd (submit_run unpicklable_server run7
      (started_agent [''q1''] {7}) io0))))"
  by (simp add: unpicklable_server_def coordinator_defs server_defs)

text \<open>
  Claim C4, amended. \<open>_propose_failed_state\<close> never raises, whatever the serialiser and the
  server do. What it does is told by its record: when the exception serialises to a payload
  \<open>d\<close> (and the client is open) it proposes \<open>Failed\<close> with the message "Submission failed."
  and the data \<open>d\<close>, once; an Abort answered to the proposal adds nothing, any other
  exception of the proposal adds one error log. When the serialiser raises, nothing is
  proposed: the exception is logged, or dropped if it is an Abort. When the claim succeeded,
  the infrastructure was resolved and the dispatch raised \<open>exc\<close>, the coordinator logs the
  failure and then makes exactly this report.
\<close>

theorem submit_failure_report:
  "fst (propose_failed_state env a fr exc iox) = Inr () \<and>
   new_events iox (snd (propose_failed_state env a fr exc iox)) =
     (case encode env ''cloudpickle'' exc of
        Inl (Abort _) \<Rightarrow> []
      | Inl _ \<Rightarrow> [Log ERROR (FailedToUpdateState (fr_id fr))]
      | Inr d \<Rightarrow>
          (case client a of
             None \<Rightarrow> [Log ERROR (FailedToUpdateState (fr_id fr))]
           | Some _ \<Rightarrow>
               ProposeState (Failed ''Submission failed.'' d) (fr_id fr) #
                 (case fst (propose_state env (Failed ''Submission failed.'' d) (fr_id fr)
                              (io_world iox)) of
                    Inr _ \<Rightarrow> []
                  | Inl (Abort _) \<Rightarrow> []
                  | Inl _ \<Rightarrow> [Log ERROR (FailedToUpdateState (fr_id fr))]))) \<and>
   (propose_pending_state env a fr io = (Inr True, io1) \<and>
    get_infrastructure env a fr io1 = (Inr infra, io2) \<and>
    task_group_start env a fr infra io2 = (Inl exc, io3) \<longrightarrow>
      new_events io3 (snd (snd (submit_run env fr a io))) =
        Log ERROR (FailedToSubmit (fr_id fr)) #
          (case encode env ''cloudpickle'' exc of
             Inl (Abort _) \<Rightarrow> []
           | Inl _ \<Rightarrow> [Log ERROR (FailedToUpdateState (fr_id fr))]
           | Inr d \<Rightarrow>
               ProposeState (Failed ''Submission failed.'' d) (fr_id fr) #
                 (case fst (propose_state env (Failed ''Submission failed.'' d) (fr_id fr)
                              (io_world io3)) of
                    Inr _ \<Rightarrow> []
                  | Inl (Abort _) \<Rightarrow> []
                  | Inl _ \<Rightarrow> [Log ERROR (FailedToUpdateState (fr_id fr))])))"
proof (intro conjI impI)
  show "fst (propose_failed_state env a fr exc iox) = Inr ()"
    by (rule propose_failed_state_never_raises)
next
  show "new_events iox (snd (propose_failed_state env a fr exc iox)) =
     (case encode env ''cloudpickle'' exc of
        Inl (Abort _) \<Rightarrow> []
      | Inl _ \<Rightarrow> [Log ERROR (FailedToUpdateState (fr_id fr))]
      | Inr d \<Rightarrow>
          (case client a of
             None \<Rightarrow> [Log ERROR (FailedToUpdateState (fr_id fr))]
           | Some _ \<Rightarrow>
               ProposeState (Failed ''Submission failed.'' d) (fr_id fr) #
                 (case fst (propose_state env (Failed ''Submission failed.'' d) (fr_id fr)
                              (io_world iox)) of
                    Inr _ \<Rightarrow> []
                  | Inl (Abort _) \<Rightarrow> []
                  | Inl _ \<Rightarrow> [Log ERROR (FailedToUpdateState (fr_id fr))])))"
    by (rule propose_failed_state_events)
next
  assume h: "propose_pending_state env a fr io = (Inr True, io1) \<and>
    get_infrastructure env a fr io1 = (Inr infra, io2) \<and>
    task_group_start env a fr infra io2 = (Inl exc, io3)"
  let ?io3 = "emit (Log ERROR (FailedToSubmit (fr_id fr))) io3"
  obtain rf io4 where pf: "propose_failed_state env a fr exc ?io3 = (rf, io4)"
    by (cases "propose_failed_state env a fr exc ?io3")
  have rf: "rf = Inr ()"
    using propose_failed_state_never_raises [of env a fr exc ?io3] pf by simp
  obtain cl where cl: "client a = Some cl"
    using propose_pending_state_cases [of env a fr io "Inr True" io1] h by auto
  have io': "snd (snd (submit_run env fr a io)) = io4"
    using h pf rf by (simp add: submit_run_def finish_run_def split: sum.splits)
  have ev: "new_events ?io3 io4 =
     (case encode env ''cloudpickle'' exc of
        Inl (Abort _) \<Rightarrow> []
      | Inl _ \<Rightarrow> [Log ERROR (FailedToUpdateState (fr_id fr))]
      | Inr d \<Rightarrow>
               ProposeState (Failed ''Submission failed.'' d) (fr_id fr) #
                 (case fst (propose_state env (Failed ''Submission failed.'' d) (fr_id fr)
                              (io_world io3)) of
                    Inr _ \<Rightarrow> []
                  | Inl (Abort _) \<Rightarrow> []
                  | Inl _ \<Rightarrow> [Log ERROR (FailedToUpdateState (fr_id fr))]))"
    using propose_failed_state_events [of ?io3 env a fr exc] pf cl
    by (simp add: emit_def split: sum.splits)
  have ext: "\<exists>t. io_trace io4 = io_trace ?io3 @ t"
    using pf cl
    by (auto simp: propose_failed_state_def client_call_def emit_def
        split: sum.splits prod.splits exn.splits)
  then obtain t where t: "io_trace io4 = io_trace io3 @ Log ERROR (FailedToSubmit (fr_id fr)) # t"
    by (auto simp: emit_def)
  then have "new_events ?io3 io4 = t" "new_events io3 io4 = Log ERROR (FailedToSubmit (fr_id fr)) # t"
    by (simp_all add: new_events_def emit_def)
  with ev io' show "new_events io3 (snd (snd (submit_run env fr a io))) =
        Log ERROR (FailedToSubmit (fr_id fr)) #
          (case encode env ''cloudpickle'' exc of
             Inl (Abort _) \<Rightarrow> []
           | Inl _ \<Rightarrow> [Log ERROR (FailedToUpdateState (fr_id fr))]
           | Inr d \<Rightarrow>
               ProposeState (Failed ''Submission failed.'' d) (fr_id fr) #
                 (case fst (propose_state env (Failed ''Submission failed.'' d) (fr_id fr)
                              (io_world io3)) of
                    Inr _ \<Rightarrow> []
                  | Inl (Abort _) \<Rightarrow> []
                  | Inl _ \<Rightarrow> [Log ERROR (FailedToUpdateState (fr_id fr))]))"
    by simp
qed

theorem submit_failure_report_witness:
  "new_events (snd (task_group_start (server (Inr Pending) None (Inl (OtherError ''boom''))) (started_agent [''q1''] {7}) run7 \<lparr>inf_type = ''process'', inf_fields = bd_data doc5, inf_block_document_id = Some 5\<rparr> (snd (get_infrastructure (server (Inr Pending) None (Inl (OtherError ''boom''))) (started_agent [''q1''] {7}) run7 (snd (propose_pending_state (server (Inr Pending) None (Inl (OtherError ''boom''))) (started_agent [''q1''] {7}) run7 io0))))))
     (snd (snd (submit_run (server (Inr Pending) None (Inl (OtherError ''boom''))) run7 (started_agent [''q1''] {7}) io0))) =
   [Log ERROR (FailedToSubmit 7),
    ProposeState (Failed ''Submission failed.'' (DataDocument ''cloudpickle'' ''blob'')) 7]"
  using submit_failure_report
          [of "server (Inr Pending) None (Inl (OtherError ''boom''))" "started_agent [''q1''] {7}" run7 "OtherError ''boom''" io0 io0
              "snd (propose_pending_state (server (Inr Pending) None (Inl (OtherError ''boom''))) (started_agent [''q1''] {7}) run7 io0)"
              "\<lparr>inf_type = ''process'', inf_fields = bd_data doc5, inf_block_document_id = Some 5\<rparr>"
              "snd (get_infrastructure (server (Inr Pending) None (Inl (OtherError ''boom''))) (started_agent [''q1''] {7}) run7 (snd (propose_pending_state (server (Inr Pending) None (Inl (OtherError ''boom''))) (started_agent [''q1''] {7}) run7 io0)))"
              "snd (task_group_start (server (Inr Pending) None (Inl (OtherError ''boom''))) (started_agent [''q1''] {7}) run7 \<lparr>inf_type = ''process'', inf_fields = bd_data doc5, inf_block_document_id = Some 5\<rparr> (snd (get_infrastructure (server (Inr Pending) None (Inl (OtherError ''boom''))) (started_agent [''q1''] {7}) run7 (snd (propose_pending_state (server (Inr Pending) None (Inl (OtherError ''boom''))) (started_agent [''q1''] {7}) run7 io0)))))"]
  by (simp add: coordinator_defs server_defs)

text \<open>
  Claim C1, at a run the code can receive: run 8 was fetched and claimed, and its
  deployment has been deleted, so \<open>read_deployment\<close> raises. \<open>get_infrastructure\<close> is called
  outside the \<open>try\<close> of \<open>submit_run\<close>: the exception leaves the coordinator before line 208
  and the identifier stays in \<open>submitting_flow_run_ids\<close>.
\<close>

theorem resolver_exception_leaks_identifier:
  "fst (submit_run (server (Inr Pending) None (Inr ())) run8 (started_agent [''q1''] {8}) io0)
     = Inl ObjectNotFound \<and>
   8 \<in> submitting_flow_run_ids
         (fst (snd (submit_run (server (Inr Pending) None (Inr ())) run8
                      (started_agent [''q1''] {8}) io0)))"
  by (simp add: coordinator_defs server_defs)

text \<open>
  Claim C2, at a run the code can receive: run 7 is claimed and its deployment overrides
  \<open>missing.FOO\<close>, a path whose first segment the block document lacks. The \<open>KeyError\<close> of
  the resolver escapes \<open>submit_run\<close> and no Failed state is proposed.
\<close>

theorem resolver_exception_escapes_unreported:
  "fst (submit_run (server (Inr Pending) (Some [(''missing.FOO'', JStr ''bar'')]) (Inr ())) run7
          (started_agent [''q1''] {7}) io0) = Inl (KeyError ''missing'') \<and>
   \<not> list_ex is_failed_proposal
        (io_trace (snd (snd (submit_run
           (server (Inr Pending) (Some [(''missing.FOO'', JStr ''bar'')]) (Inr ())) run7
           (started_agent [''q1''] {7}) io0))))"
  by (simp add: coordinator_defs server_defs)

section \<open>One tick: what the loops leave in the record\<close>

lemma fetch_rel_append:
  "fetch_rel cl b t1 ys1 r1 \<Longrightarrow> fetch_rel cl b t2 ys2 r2 \<Longrightarrow>
     fetch_rel cl b (t1 @ t2) (ys1 @ ys2) (r1 @ r2)"
  by (auto simp: fetch_rel_def)

lemma fetch_rel_quiet [simp]:
  "fetch_rel cl b [] [] []"
  "fetch_rel cl b [ReadWorkQueueByName n x] [] []"
  "fetch_rel cl b [CreateWorkQueue n x] [] []"
  "fetch_rel cl b [Log ERROR m] [] []"
  "fetch_rel cl b [Log INFO (CreatedWorkQueue n)] [] []"
  by (auto simp: fetch_rel_def)

lemma process_queue_events:
  assumes "process_queue env cl b q (acc, io) = (acc', io')"
  shows "\<exists>t rs. io_trace io' = io_trace io @ t \<and> acc' = acc @ rs \<and> fetch_rel cl b t [q] rs"
  using assms
  by (auto simp: process_queue_def client_call_def emit_def fetch_rel_def
      split: if_splits option.splits prod.splits sum.splits)

lemma client_call_cases:
  assumes "client_call cl f ev io = (r, io')"
  obtains "cl = None" "r = Inl AttributeError" "io' = io"
  | "cl \<noteq> None" "io_trace io' = io_trace io @ [ev r]"
  using assms by (auto simp: client_call_def split: option.splits prod.splits)

lemma reload_work_queues_events:
  assumes "reload_work_queues env (process_queue env cl b) names acc a io = (r, acc', a', io')"
    and "client a = cl"
  shows "\<exists>t ys rs. io_trace io' = io_trace io @ t \<and>
             a' = a\<lparr>work_queue_cache := work_queue_cache a @ ys\<rparr> \<and>
             acc' = acc @ rs \<and> fetch_rel cl b t ys rs"
  using assms
proof (induction names arbitrary: acc a io)
  case Nil
  then show ?case
    by (intro exI [of _ "[]"]) simp
next
  case (Cons name names)
  let ?body = "process_queue env cl b"
  have yield: "\<exists>t ys rs. io_trace io' = io_trace iox @ t \<and>
             a' = a\<lparr>work_queue_cache := work_queue_cache a @ ys\<rparr> \<and>
             acc' = acc @ rs \<and> fetch_rel cl b t ys rs"
    if y: "(case ?body wq (acc, iox) of
             (acc2, io2) \<Rightarrow> reload_work_queues env ?body names acc2
                 (a\<lparr>work_queue_cache := work_queue_cache a @ [wq]\<rparr>) io2) = (r, acc', a', io')"
    for wq iox
  proof -
    obtain acc2 io2 where b: "?body wq (acc, iox) = (acc2, io2)"
      by (cases "?body wq (acc, iox)")
    from process_queue_events [OF b] obtain tq rq where
      q: "io_trace io2 = io_trace iox @ tq" "acc2 = acc @ rq" "fetch_rel cl b tq [wq] rq"
      by auto
    from y b have "reload_work_queues env ?body names acc2
                 (a\<lparr>work_queue_cache := work_queue_cache a @ [wq]\<rparr>) io2 = (r, acc', a', io')"
      by simp
    from Cons.IH [OF this] Cons.prems(2) obtain t ys rs where
      i: "io_trace io' = io_trace io2 @ t"
         "a' = a\<lparr>work_queue_cache := work_queue_cache a @ [wq] @ ys\<rparr>"
         "acc' = acc2 @ rs" "fetch_rel cl b t ys rs"
      by auto
    from q(3) i(4) have "fetch_rel cl b (tq @ t) ([wq] @ ys) (rq @ rs)"
      by (rule fetch_rel_append)
    with q i show ?thesis
      by (intro exI [of _ "tq @ t"] exI [of _ "[wq] @ ys"] exI [of _ "rq @ rs"]) simp
  qed
  have extend: "\<exists>t ys rs. io_trace io' = io_trace ioy @ t \<and>
             a' = a\<lparr>work_queue_cache := work_queue_cache a @ ys\<rparr> \<and>
             acc' = acc @ rs \<and> fetch_rel cl b t ys rs"
    if "io_trace iox = io_trace ioy @ t0" "fetch_rel cl b t0 [] []"
       "\<exists>t ys rs. io_trace io' = io_trace iox @ t \<and>
             a' = a\<lparr>work_queue_cache := work_queue_cache a @ ys\<rparr> \<and>
             acc' = acc @ rs \<and> fetch_rel cl b t ys rs"
    for iox ioy t0
  proof -
    from that(3) obtain t ys rs where
      i: "io_trace io' = io_trace iox @ t"
         "a' = a\<lparr>work_queue_cache := work_queue_cache a @ ys\<rparr>"
         "acc' = acc @ rs" "fetch_rel cl b t ys rs"
      by auto
    from that(2) i(4) have "fetch_rel cl b (t0 @ t) ([] @ ys) ([] @ rs)"
      by (rule fetch_rel_append)
    with that(1) i show ?thesis
      by (intro exI [of _ "t0 @ t"] exI [of _ ys] exI [of _ rs]) simp
  qed
  obtain r1 io1 where c1: "client_call (client a) (read_work_queue_by_name env name)
             (ReadWorkQueueByName name) io = (r1, io1)"
    by (cases "client_call (client a) (read_work_queue_by_name env name)
             (ReadWorkQueueByName name) io")
  then obtain t1 where t1: "io_trace io1 = io_trace io @ t1" "fetch_rel cl b t1 [] []"
    by (rule client_call_cases) auto
  show ?case
  proof (cases r1)
    case (Inr wq)
    with Cons.prems(1) c1 have "\<exists>t ys rs. io_trace io' = io_trace io1 @ t \<and>
             a' = a\<lparr>work_queue_cache := work_queue_cache a @ ys\<rparr> \<and>
             acc' = acc @ rs \<and> fetch_rel cl b t ys rs"
      by (intro yield) simp
    with t1 show ?thesis by (rule extend)
  next
    case (Inl e)
    show ?thesis
    proof (cases "e = ObjectNotFound")
      case False
      with Inl Cons.prems(1) c1 have "r = Some e" "acc' = acc" "a' = a" "io' = io1"
        by auto
      with t1 show ?thesis
        by (intro exI [of _ t1] exI [of _ "[]"]) simp
    next
      case True
      obtain r2 io2 where c2: "client_call (client a) (create_work_queue env name)
                     (CreateWorkQueue name) io1 = (r2, io2)"
        by (cases "client_call (client a) (create_work_queue env name)
                     (CreateWorkQueue name) io1")
      then obtain t2 where t2: "io_trace io2 = io_trace io1 @ t2" "fetch_rel cl b t2 [] []"
        by (rule client_call_cases) auto
      have "\<exists>t ys rs. io_trace io' = io_trace io2 @ t \<and>
             a' = a\<lparr>work_queue_cache := work_queue_cache a @ ys\<rparr> \<and>
             acc' = acc @ rs \<and> fetch_rel cl b t ys rs"
      proof (cases r2)
        case (Inr wq)
        let ?io3 = "emit (Log INFO (CreatedWorkQueue name)) io2"
        from Inr True Inl Cons.prems(1) c1 c2 have "\<exists>t ys rs. io_trace io' = io_trace ?io3 @ t \<and>
             a' = a\<lparr>work_queue_cache := work_queue_cache a @ ys\<rparr> \<and>
             acc' = acc @ rs \<and> fetch_rel cl b t ys rs"
          by (intro yield) simp
        then show ?thesis
          by (intro extend [of ?io3 io2 "[Log INFO (CreatedWorkQueue name)]"])
             (simp_all add: emit_def)
      next
        case (Inl exc)
        let ?io3 = "emit (Log ERROR (FailedToCreateWorkQueue name)) io2"
        from Inl True \<open>r1 = Inl e\<close> Cons.prems(1) c1 c2
        have "reload_work_queues env ?body names acc a ?io3 = (r, acc', a', io')"
          by simp
        from Cons.IH [OF this Cons.prems(2)]
        show ?thesis
          by (intro extend [of ?io3 io2 "[Log ERROR (FailedToCreateWorkQueue name)]"])
             (simp_all add: emit_def)
      qed
      with t2 have "\<exists>t ys rs. io_trace io' = io_trace io1 @ t \<and>
             a' = a\<lparr>work_queue_cache := work_queue_cache a @ ys\<rparr> \<and>
             acc' = acc @ rs \<and> fetch_rel cl b t ys rs"
        by (rule extend)
      with t1 show ?thesis by (rule extend)
    qed
  qed
qed

lemma cached_queues_events:
  assumes "foldl (\<lambda>s queue. process_queue env cl b queue s) (acc, io) qs = (acc', io')"
  shows "\<exists>t rs. io_trace io' = io_trace io @ t \<and> acc' = acc @ rs \<and> fetch_rel cl b t qs rs"
  using assms
proof (induction qs arbitrary: acc io)
  case Nil
  then show ?case by (intro exI [of _ "[]"]) simp
next
  case (Cons q qs)
  obtain acc1 io1 where b: "process_queue env cl b q (acc, io) = (acc1, io1)"
    by (cases "process_queue env cl b q (acc, io)")
  from process_queue_events [OF b] obtain tq rq where
    q: "io_trace io1 = io_trace io @ tq" "acc1 = acc @ rq" "fetch_rel cl b tq [q] rq"
    by auto
  from Cons.prems b
  have "foldl (\<lambda>s queue. process_queue env cl b queue s) (acc1, io1) qs = (acc', io')"
    by simp
  from Cons.IH [OF this] obtain t rs where
    i: "io_trace io' = io_trace io1 @ t" "acc' = acc1 @ rs" "fetch_rel cl b t qs rs"
    by auto
  from q(3) i(3) have "fetch_rel cl b (tq @ t) ([q] @ qs) (rq @ rs)"
    by (rule fetch_rel_append)
  with q i show ?case
    by (intro exI [of _ "tq @ t"] exI [of _ "rq @ rs"]) simp
qed

text \<open>The fetch phase of a tick.\<close>

lemma get_work_queues_events:
  assumes "get_work_queues env now (process_queue env (client a) b) [] a io = (r, runs, a', io')"
  shows "\<exists>t. io_trace io' = io_trace io @ t \<and>
             fetch_rel (client a) b t (work_queue_cache a') runs \<and>
             submitting_flow_run_ids a' = submitting_flow_run_ids a \<and>
             task_group a' = task_group a \<and> client a' = client a"
proof (cases "cache_is_live a now")
  case True
  obtain acc1 io1 where f: "foldl (\<lambda>s queue. process_queue env (client a) b queue s) ([], io)
      (work_queue_cache a) = (acc1, io1)"
    by (cases "foldl (\<lambda>s queue. process_queue env (client a) b queue s) ([], io)
      (work_queue_cache a)")
  with True assms have "runs = acc1" "a' = a" "io' = io1"
    by (simp_all add: get_work_queues_def)
  with cached_queues_events [OF f] show ?thesis by auto
next
  case False
  let ?a = "a\<lparr>work_queue_cache := [], work_queue_cache_expiration := Some (now + 30)\<rparr>"
  from False assms
  have "reload_work_queues env (process_queue env (client a) b) (work_queues a) [] ?a io
          = (r, runs, a', io')"
    by (simp add: get_work_queues_def)
  from reload_work_queues_events [OF this] show ?thesis by auto
qed

lemma submit_loop_events:
  assumes "submit_loop runs a io = (r, a', io')"
  shows "\<exists>t. io_trace io' = io_trace io @ t \<and>
             concat (map fetched t) = [] \<and> concat (map requested t) = [] \<and>
             concat (map paused_logged t) = [] \<and>
             work_queue_cache a' = work_queue_cache a \<and>
             work_queue_cache_expiration a' = work_queue_cache_expiration a \<and>
             submitting_flow_run_ids a \<subseteq> submitting_flow_run_ids a' \<and>
             length (filter (spawns i) t) \<le> 1 \<and>
             (i \<in> submitting_flow_run_ids a \<longrightarrow> filter (spawns i) t = []) \<and>
             (filter (spawns i) t \<noteq> [] \<longrightarrow> i \<in> submitting_flow_run_ids a') \<and>
             (r = None \<and> i \<in> fr_id ` set runs \<longrightarrow> i \<in> submitting_flow_run_ids a') \<and>
             (r = None \<and> i \<in> fr_id ` set runs \<and> i \<notin> submitting_flow_run_ids a \<longrightarrow>
                length (filter (spawns i) t) = 1)"
  using assms
proof (induction runs arbitrary: a io)
  case Nil
  then show ?case by (intro exI [of _ "[]"]) simp
next
  case (Cons fr rest)
  let ?io1 = "emit (Log INFO (SubmittingFlowRun (fr_id fr))) io"
  show ?case
  proof (cases "fr_id fr \<in> submitting_flow_run_ids a")
    case True
    with Cons.prems have "submit_loop rest a ?io1 = (r, a', io')"
      by (simp add: Let_def)
    from Cons.IH [OF this] obtain t where
      "io_trace io' = io_trace ?io1 @ t \<and>
             concat (map fetched t) = [] \<and> concat (map requested t) = [] \<and>
             concat (map paused_logged t) = [] \<and>
             work_queue_cache a' = work_queue_cache a \<and>
             work_queue_cache_expiration a' = work_queue_cache_expiration a \<and>
             submitting_flow_run_ids a \<subseteq> submitting_flow_run_ids a' \<and>
             length (filter (spawns i) t) \<le> 1 \<and>
             (i \<in> submitting_flow_run_ids a \<longrightarrow> filter (spawns i) t = []) \<and>
             (filter (spawns i) t \<noteq> [] \<longrightarrow> i \<in> submitting_flow_run_ids a') \<and>
             (r = None \<and> i \<in> fr_id ` set rest \<longrightarrow> i \<in> submitting_flow_run_ids a') \<and>
             (r = None \<and> i \<in> fr_id ` set rest \<and> i \<notin> submitting_flow_run_ids a \<longrightarrow>
                length (filter (spawns i) t) = 1)"
      by blast
    with True show ?thesis
      by (intro exI [of _ "Log INFO (SubmittingFlowRun (fr_id fr)) # t"])
         (auto simp: emit_def)
  next
    case False
    let ?a1 = "a\<lparr>submitting_flow_run_ids := insert (fr_id fr) (submitting_flow_run_ids a)\<rparr>"
    show ?thesis
    proof (cases "task_group a")
      case None
      with False Cons.prems have "r = Some AttributeError" "a' = ?a1" "io' = ?io1"
        by (simp_all add: Let_def)
      then show ?thesis
        by (intro exI [of _ "[Log INFO (SubmittingFlowRun (fr_id fr))]"])
           (auto simp: emit_def)
    next
      case (Some tg)
      let ?a2 = "?a1\<lparr>task_group := Some (tg @ [fr])\<rparr>"
      let ?io2 = "emit (TaskGroupStartSoon fr) ?io1"
      from Some False Cons.prems have "submit_loop rest ?a2 ?io2 = (r, a', io')"
        by (simp add: Let_def)
      from Cons.IH [OF this] obtain t where
        "io_trace io' = io_trace ?io2 @ t \<and>
             concat (map fetched t) = [] \<and> concat (map requested t) = [] \<and>
             concat (map paused_logged t) = [] \<and>
             work_queue_cache a' = work_queue_cache ?a2 \<and>
             work_queue_cache_expiration a' = work_queue_cache_expiration ?a2 \<and>
             submitting_flow_run_ids ?a2 \<subseteq> submitting_flow_run_ids a' \<and>
             length (filter (spawns i) t) \<le> 1 \<and>
             (i \<in> submitting_flow_run_ids ?a2 \<longrightarrow> filter (spawns i) t = []) \<and>
             (filter (spawns i) t \<noteq> [] \<longrightarrow> i \<in> submitting_flow_run_ids a') \<and>
             (r = None \<and> i \<in> fr_id ` set rest \<longrightarrow> i \<in> submitting_flow_run_ids a') \<and>
             (r = None \<and> i \<in> fr_id ` set rest \<and> i \<notin> submitting_flow_run_ids ?a2 \<longrightarrow>
                length (filter (spawns i) t) = 1)"
        by blast
      with False show ?thesis
        by (intro exI [of _ "Log INFO (SubmittingFlowRun (fr_id fr)) # TaskGroupStartSoon fr # t"])
           (auto simp: emit_def)
    qed
  qed
qed

lemma submit_loop_spawn_rel:
  assumes "submit_loop runs a io = (r, a', io')"
  shows "\<exists>t. io_trace io' = io_trace io @ t \<and>
             work_queue_cache a' = work_queue_cache a \<and>
             work_queue_cache_expiration a' = work_queue_cache_expiration a \<and>
             spawn_rel i runs (submitting_flow_run_ids a) (submitting_flow_run_ids a')
               (r = None) t"
  using submit_loop_events [OF assms, of i] unfolding spawn_rel_def by blast

lemma spawn_rel_nil: "spawn_rel i runs ids ids False []"
  by (simp add: spawn_rel_def)

lemma tick_unfold:
  assumes "get_and_submit_flow_runs env nb now a io = (r, a', io')" and "started a"
  obtains e runs where
      "get_work_queues env now (process_queue env (client a) (nb + prefetch_window env a)) [] a
         (emit (Log DEBUG CheckingForFlowRuns) io) = (Some e, runs, a', io')"
      "r = Inl e"
  | runs a1 io1 rs where
      "get_work_queues env now (process_queue env (client a) (nb + prefetch_window env a)) [] a
         (emit (Log DEBUG CheckingForFlowRuns) io) = (None, runs, a1, io1)"
      "submit_loop runs a1 io1 = (rs, a', io')"
      "r = (case rs of Some e \<Rightarrow> Inl e | None \<Rightarrow> Inr runs)"
proof -
  let ?g = "get_work_queues env now (process_queue env (client a) (nb + prefetch_window env a))
              [] a (emit (Log DEBUG CheckingForFlowRuns) io)"
  obtain rg runs a1 io1 where g: "?g = (rg, runs, a1, io1)"
    by (cases ?g) auto
  show thesis
  proof (cases rg)
    case (Some e)
    with g assms have "r = Inl e" "a' = a1" "io' = io1"
      by (simp_all add: get_and_submit_flow_runs_def Let_def)
    with g Some that(1) show thesis by simp
  next
    case None
    obtain rs a2 io2 where s: "submit_loop runs a1 io1 = (rs, a2, io2)"
      by (cases "submit_loop runs a1 io1") auto
    with None g assms have "a' = a2" "io' = io2"
        "r = (case rs of Some e \<Rightarrow> Inl e | None \<Rightarrow> Inr runs)"
      by (simp_all add: get_and_submit_flow_runs_def Let_def split: option.splits)
    with g None s that(2) show thesis by simp
  qed
qed


lemma tick_events:
  assumes "get_and_submit_flow_runs env nb now a io = (r, a', io')" and "started a"
  shows "\<exists>tf ts runs. io_trace io' = io_trace io @ Log DEBUG CheckingForFlowRuns # tf @ ts \<and>
           fetch_rel (client a) (nb + prefetch_window env a) tf (work_queue_cache a') runs \<and>
           (\<forall>rs. r = Inr rs \<longrightarrow> rs = runs) \<and>
           spawn_rel i runs (submitting_flow_run_ids a) (submitting_flow_run_ids a')
             (\<exists>rs. r = Inr rs) ts"
  using assms
proof (rule tick_unfold)
  fix e runs
  assume g: "get_work_queues env now (process_queue env (client a) (nb + prefetch_window env a))
         [] a (emit (Log DEBUG CheckingForFlowRuns) io) = (Some e, runs, a', io')"
    and r: "r = Inl e"
  from get_work_queues_events [OF g] obtain tf where
    f: "io_trace io' = io_trace (emit (Log DEBUG CheckingForFlowRuns) io) @ tf"
       "fetch_rel (client a) (nb + prefetch_window env a) tf (work_queue_cache a') runs"
       "submitting_flow_run_ids a' = submitting_flow_run_ids a"
    by auto
  have "spawn_rel i runs (submitting_flow_run_ids a) (submitting_flow_run_ids a')
             (\<exists>rs. r = Inr rs) []"
    using r f(3) by (simp add: spawn_rel_nil)
  with f r show ?thesis
    by (intro exI [of _ tf] exI [of _ "[]"] exI [of _ runs]) (simp add: emit_def)
next
  fix runs a1 io1 rs
  assume g: "get_work_queues env now (process_queue env (client a) (nb + prefetch_window env a))
         [] a (emit (Log DEBUG CheckingForFlowRuns) io) = (None, runs, a1, io1)"
    and s: "submit_loop runs a1 io1 = (rs, a', io')"
    and r: "r = (case rs of Some e \<Rightarrow> Inl e | None \<Rightarrow> Inr runs)"
  from get_work_queues_events [OF g] obtain tf where
    f: "io_trace io1 = io_trace (emit (Log DEBUG CheckingForFlowRuns) io) @ tf"
       "fetch_rel (client a) (nb + prefetch_window env a) tf (work_queue_cache a1) runs"
       "submitting_flow_run_ids a1 = submitting_flow_run_ids a"
    by auto
  from submit_loop_spawn_rel [OF s, of i] obtain ts where
    t: "io_trace io' = io_trace io1 @ ts"
       "work_queue_cache a' = work_queue_cache a1"
       "spawn_rel i runs (submitting_flow_run_ids a1) (submitting_flow_run_ids a') (rs = None) ts"
    by auto
  have ok: "(\<exists>x. r = Inr x) = (rs = None)"
    using r by (cases rs) simp_all
  have rr: "\<forall>x. r = Inr x \<longrightarrow> x = runs"
    using r by (cases rs) simp_all
  from f t ok rr show ?thesis
    by (intro exI [of _ tf] exI [of _ ts] exI [of _ runs]) (simp add: emit_def)
qed


lemma get_work_queues_live:
  assumes "get_work_queues env now body acc a io = (r, acc', a', io')" and "cache_is_live a now"
  shows "a' = a \<and> r = None \<and> (acc', io') = foldl (\<lambda>s queue. body queue s) (acc, io) (work_queue_cache a)"
  using assms by (auto simp: get_work_queues_def split: prod.splits)

lemma tick_live_cache:
  assumes "get_and_submit_flow_runs env nb now a io = (r, a', io')" and "cache_is_live a now"
  shows "work_queue_cache a' = work_queue_cache a"
proof (cases "started a")
  case False
  with assms show ?thesis by (simp add: get_and_submit_flow_runs_def)
next
  case True
  with assms(1) show ?thesis
  proof (rule tick_unfold)
    fix e runs
    assume "get_work_queues env now (process_queue env (client a) (nb + prefetch_window env a))
         [] a (emit (Log DEBUG CheckingForFlowRuns) io) = (Some e, runs, a', io')"
    from get_work_queues_live [OF this assms(2)] show ?thesis by simp
  next
    fix runs a1 io1 rs
    assume g: "get_work_queues env now (process_queue env (client a) (nb + prefetch_window env a))
         [] a (emit (Log DEBUG CheckingForFlowRuns) io) = (None, runs, a1, io1)"
      and s: "submit_loop runs a1 io1 = (rs, a', io')"
    from get_work_queues_live [OF g assms(2)] have "a1 = a" by simp
    with submit_loop_spawn_rel [OF s, of 0] show ?thesis by auto
  qed
qed

lemma new_events_append: "io_trace io' = io_trace io @ t \<Longrightarrow> new_events io io' = t"
  by (simp add: new_events_def)

text \<open>
  Claim C7. In one tick of a started agent the requests for runs are, in order, exactly one
  per queue of the tick that is not paused, each with limit 10 and \<open>scheduled_before\<close>
  equal to the first clock reading plus the prefetch window: the agent's
  \<open>prefetch_seconds\<close>, or the setting \<open>PREFECT_AGENT_PREFETCH_SECONDS\<close> when
  \<open>prefetch_seconds\<close> is \<open>None\<close> or 0. A paused queue gets no request and exactly one log
  line. The queues of the tick are the cache as the tick leaves it: the cached queues when
  the cache was live, the queues just reloaded otherwise.
\<close>

theorem tick_requests:
  assumes "started a" and "get_and_submit_flow_runs env now_before now a io = (r, a', io')"
  shows "concat (map requested (new_events io io')) =
           (if client a = None then []
            else map (\<lambda>q. (wq_id q, 10,
                           now_before +
                             (case prefetch_seconds a of
                                None \<Rightarrow> prefetch_setting env
                              | Some p \<Rightarrow> if p = 0 then prefetch_setting env else p)))
                   (filter (\<lambda>q. \<not> wq_is_paused q) (work_queue_cache a'))) \<and>
         concat (map paused_logged (new_events io io')) =
           map (\<lambda>q. (wq_name q, wq_id q)) (filter wq_is_paused (work_queue_cache a')) \<and>
         (cache_is_live a now \<longrightarrow> work_queue_cache a' = work_queue_cache a)"
proof -
  from tick_events [OF assms(2) assms(1), of 0] obtain tf ts runs where
    t: "io_trace io' = io_trace io @ Log DEBUG CheckingForFlowRuns # tf @ ts"
       "fetch_rel (client a) (now_before + prefetch_window env a) tf (work_queue_cache a') runs"
       "spawn_rel 0 runs (submitting_flow_run_ids a) (submitting_flow_run_ids a')
             (\<exists>rs. r = Inr rs) ts"
    by blast
  have n: "new_events io io' = Log DEBUG CheckingForFlowRuns # tf @ ts"
    using t(1) by (rule new_events_append)
  have q: "concat (map requested ts) = []" "concat (map paused_logged ts) = []"
    using t(3) by (simp_all add: spawn_rel_def)
  have c: "cache_is_live a now \<longrightarrow> work_queue_cache a' = work_queue_cache a"
    using tick_live_cache [OF assms(2)] by simp
  from t(2) have "concat (map requested tf) =
           (if client a = None then []
            else map (\<lambda>q. (wq_id q, 10, now_before + prefetch_window env a))
                   (filter (\<lambda>q. \<not> wq_is_paused q) (work_queue_cache a')))"
     "concat (map paused_logged tf) =
           map (\<lambda>q. (wq_name q, wq_id q)) (filter wq_is_paused (work_queue_cache a'))"
    by (simp_all add: fetch_rel_def)
  with n q c show ?thesis by (simp add: prefetch_window_def)
qed

lemma spawns_start_soon: "spawns i ev \<Longrightarrow> \<exists>flow_run. ev = TaskGroupStartSoon flow_run"
  by (cases ev) auto

lemma fetch_rel_no_spawn: "fetch_rel cl b t ys runs \<Longrightarrow> filter (spawns i) t = []"
  by (auto simp: fetch_rel_def list_all_iff filter_empty_conv dest!: spawns_start_soon)

text \<open>
  Claim C10. The list a tick returns is the concatenation of the lists the server returned
  to the tick's requests, in order. Runs whose identifier was already in
  \<open>submitting_flow_run_ids\<close> are in it, although no coordinator is spawned for them.
\<close>

theorem tick_returns_fetched:
  assumes "get_and_submit_flow_runs env now_before now a io = (Inr runs, a', io')"
  shows "runs = concat (map fetched (new_events io io')) \<and>
         (\<forall>flow_run \<in> set runs. fr_id flow_run \<in> submitting_flow_run_ids a \<longrightarrow>
            filter (spawns (fr_id flow_run)) (new_events io io') = [])"
proof -
  have st: "started a"
    using assms by (auto simp: get_and_submit_flow_runs_def split: if_splits)
  have "runs = concat (map fetched (new_events io io'))"
  proof -
    from tick_events [OF assms st, of 0] obtain tf ts rs where
      t: "io_trace io' = io_trace io @ Log DEBUG CheckingForFlowRuns # tf @ ts"
       "fetch_rel (client a) (now_before + prefetch_window env a) tf (work_queue_cache a') rs"
       "runs = rs"
       "spawn_rel 0 rs (submitting_flow_run_ids a) (submitting_flow_run_ids a')
             (\<exists>x. (Inr runs :: exn + flow_run list) = Inr x) ts"
      by blast
    have "new_events io io' = Log DEBUG CheckingForFlowRuns # tf @ ts"
      using t(1) by (rule new_events_append)
    moreover have "concat (map fetched ts) = []"
      using t(4) by (simp add: spawn_rel_def)
    moreover have "rs = concat (map fetched tf)"
      using t(2) by (simp add: fetch_rel_def)
    ultimately show ?thesis using t(3) by simp
  qed
  moreover have "filter (spawns i) (new_events io io') = []"
    if "i \<in> submitting_flow_run_ids a" for i
  proof -
    from tick_events [OF assms st, of i] obtain tf ts rs where
      t: "io_trace io' = io_trace io @ Log DEBUG CheckingForFlowRuns # tf @ ts"
       "fetch_rel (client a) (now_before + prefetch_window env a) tf (work_queue_cache a') rs"
       "spawn_rel i rs (submitting_flow_run_ids a) (submitting_flow_run_ids a')
             (\<exists>x. (Inr runs :: exn + flow_run list) = Inr x) ts"
      by blast
    have "new_events io io' = Log DEBUG CheckingForFlowRuns # tf @ ts"
      using t(1) by (rule new_events_append)
    moreover have "filter (spawns i) tf = []"
      using t(2) by (rule fetch_rel_no_spawn)
    moreover have "filter (spawns i) ts = []"
      using t(3) that by (simp add: spawn_rel_def)
    ultimately show ?thesis by simp
  qed
  ultimately show ?thesis by blast
qed

lemmas tick_defs =
  get_and_submit_flow_runs_def get_work_queues_def cache_is_live_def process_queue_def
  prefetch_window_def client_call_def emit_def new_events_def Let_def

theorem tick_requests_witness:
  "concat (map requested (new_events io0 (snd (snd (get_and_submit_flow_runs (server (Inr Pending) None (Inr ())) 100 0 ((started_agent [''q1'', ''q2''] {})\<lparr>prefetch_seconds := Some 3600\<rparr>) io0))))) =
     [(1, 10, 3700)] \<and>
   concat (map paused_logged (new_events io0 (snd (snd (get_and_submit_flow_runs (server (Inr Pending) None (Inr ())) 100 0 ((started_agent [''q1'', ''q2''] {})\<lparr>prefetch_seconds := Some 3600\<rparr>) io0))))) =
     [(''q2'', 2)] \<and>
   concat (map requested (new_events io0 (snd (snd (get_and_submit_flow_runs (server (Inr Pending) None (Inr ())) 100 0 ((started_agent [''q1'', ''q2''] {})\<lparr>prefetch_seconds := Some 0\<rparr>) io0))))) =
     [(1, 10, 110)] \<and>
   concat (map requested (new_events io0 (snd (snd (get_and_submit_flow_runs (server (Inr Pending) None (Inr ())) 100 0 (started_agent [''q1'', ''q2''] {}) io0))))) =
     [(1, 10, 110)]"
  using tick_requests
    [of "(started_agent [''q1'', ''q2''] {})\<lparr>prefetch_seconds := Some 3600\<rparr>" "server (Inr Pending) None (Inr ())" 100 0 io0
        "fst (get_and_submit_flow_runs (server (Inr Pending) None (Inr ())) 100 0 ((started_agent [''q1'', ''q2''] {})\<lparr>prefetch_seconds := Some 3600\<rparr>) io0)"
        "fst (snd (get_and_submit_flow_runs (server (Inr Pending) None (Inr ())) 100 0 ((started_agent [''q1'', ''q2''] {})\<lparr>prefetch_seconds := Some 3600\<rparr>) io0))"
        "snd (snd (get_and_submit_flow_runs (server (Inr Pending) None (Inr ())) 100 0 ((started_agent [''q1'', ''q2''] {})\<lparr>prefetch_seconds := Some 3600\<rparr>) io0))"]
    tick_requests
    [of "(started_agent [''q1'', ''q2''] {})\<lparr>prefetch_seconds := Some 0\<rparr>" "server (Inr Pending) None (Inr ())" 100 0 io0
        "fst (get_and_submit_flow_runs (server (Inr Pending) None (Inr ())) 100 0 ((started_agent [''q1'', ''q2''] {})\<lparr>prefetch_seconds := Some 0\<rparr>) io0)"
        "fst (snd (get_and_submit_flow_runs (server (Inr Pending) None (Inr ())) 100 0 ((started_agent [''q1'', ''q2''] {})\<lparr>prefetch_seconds := Some 0\<rparr>) io0))"
        "snd (snd (get_and_submit_flow_runs (server (Inr Pending) None (Inr ())) 100 0 ((started_agent [''q1'', ''q2''] {})\<lparr>prefetch_seconds := Some 0\<rparr>) io0))"]
    tick_requests
    [of "started_agent [''q1'', ''q2''] {}" "server (Inr Pending) None (Inr ())" 100 0 io0
        "fst (get_and_submit_flow_runs (server (Inr Pending) None (Inr ())) 100 0 (started_agent [''q1'', ''q2''] {}) io0)"
        "fst (snd (get_and_submit_flow_runs (server (Inr Pending) None (Inr ())) 100 0 (started_agent [''q1'', ''q2''] {}) io0))"
        "snd (snd (get_and_submit_flow_runs (server (Inr Pending) None (Inr ())) 100 0 (started_agent [''q1'', ''q2''] {}) io0))"]
  by (simp add: tick_defs server_defs)

theorem tick_returns_fetched_witness:
  "fst (get_and_submit_flow_runs (server (Inr Pending) None (Inr ())) 0 0
          (started_agent [''q1''] {7}) io0) = Inr [run7] \<and>
   fr_id run7 \<in> submitting_flow_run_ids (started_agent [''q1''] {7}) \<and>
   filter (spawns (fr_id run7)) (new_events io0 (snd (snd (get_and_submit_flow_runs
      (server (Inr Pending) None (Inr ())) 0 0 (started_agent [''q1''] {7}) io0)))) = []"
  using tick_returns_fetched
    [of "server (Inr Pending) None (Inr ())" 0 0 "started_agent [''q1''] {7}" io0 "[run7]"
        "fst (snd (get_and_submit_flow_runs
           (server (Inr Pending) None (Inr ())) 0 0 (started_agent [''q1''] {7}) io0))"
        "snd (snd (get_and_submit_flow_runs
           (server (Inr Pending) None (Inr ())) 0 0 (started_agent [''q1''] {7}) io0))"]
  by (simp add: tick_defs server_defs)

section \<open>Shutdown\<close>

text \<open>
  Claim C8, as stated, at a started agent with run 7 in flight: the first \<open>shutdown()\<close>
  returns, the second one raises \<open>AttributeError\<close>, because \<open>self.task_group\<close> is \<open>None\<close>.
\<close>

theorem shutdown_not_idempotent:
  "fst (shutdown (server (Inr Pending) None (Inr ())) None (started_agent [''q1''] {7}) io0)
     = Inr () \<and>
   fst (shutdown (server (Inr Pending) None (Inr ())) None
          (fst (snd (shutdown (server (Inr Pending) None (Inr ())) None
                       (started_agent [''q1''] {7}) io0)))
          (snd (snd (shutdown (server (Inr Pending) None (Inr ())) None
                       (started_agent [''q1''] {7}) io0))))
     = Inl AttributeError"
  by (simp add: shutdown_def client_call_def Let_def server_defs)

text \<open>
  Claim C8, amended. A \<open>shutdown()\<close> that returns has reset the agent: the in-flight set
  and the cache are empty, the expiration, the client and the task group are \<open>None\<close>,
  \<open>started\<close> is false. It is not idempotent: another \<open>shutdown()\<close> raises
  \<open>AttributeError\<close>, calls nothing outside and leaves the agent as it is.
\<close>

theorem shutdown_resets_then_raises:
  assumes "shutdown env exc_info a io = (Inr (), a', io')"
  shows "submitting_flow_run_ids a' = {} \<and> work_queue_cache a' = [] \<and>
         work_queue_cache_expiration a' = None \<and> client a' = None \<and> task_group a' = None \<and>
         \<not> started a' \<and>
         shutdown env exc_info2 a' io2 = (Inl AttributeError, a', io2)"
proof -
  from assms obtain tg where tg: "task_group a = Some tg"
    by (cases "task_group a") (auto simp: shutdown_def Let_def)
  obtain r ids w1 where x: "task_group_aexit env tg exc_info (submitting_flow_run_ids a)
      (io_world io) = (r, ids, w1)"
    by (cases "task_group_aexit env tg exc_info (submitting_flow_run_ids a) (io_world io)")
  from assms tg x have a': "a' = a\<lparr>started := False, submitting_flow_run_ids := ids,
      task_group := None, client := None, submitting_flow_run_ids := {},
      work_queue_cache_expiration := None, work_queue_cache := []\<rparr>"
    by (auto simp: shutdown_def Let_def split: sum.splits prod.splits)
  then show ?thesis
    by (simp add: shutdown_def Let_def)
qed

theorem shutdown_resets_then_raises_witness:
  "submitting_flow_run_ids (fst (snd (shutdown (server (Inr Pending) None (Inr ())) None
      (started_agent [''q1''] {7}) io0))) = {} \<and>
   task_group (fst (snd (shutdown (server (Inr Pending) None (Inr ())) None
      (started_agent [''q1''] {7}) io0))) = None \<and>
   fst (shutdown (server (Inr Pending) None (Inr ())) None
      (fst (snd (shutdown (server (Inr Pending) None (Inr ())) None
         (started_agent [''q1''] {7}) io0))) io0) = Inl AttributeError"
  using shutdown_resets_then_raises
    [of "server (Inr Pending) None (Inr ())" None "started_agent [''q1''] {7}" io0
        "fst (snd (shutdown (server (Inr Pending) None (Inr ())) None
           (started_agent [''q1''] {7}) io0))"
        "snd (snd (shutdown (server (Inr Pending) None (Inr ())) None
           (started_agent [''q1''] {7}) io0))" None io0]
  by (simp add: shutdown_def client_call_def Let_def server_defs)

section \<open>The cache at every read\<close>

lemma reload_keeps_expiration:
  "reload_work_queues env body names acc a io = (r, acc', a', io') \<Longrightarrow>
     work_queue_cache_expiration a' = work_queue_cache_expiration a"
proof (induction names arbitrary: acc a io)
  case Nil
  then show ?case by simp
next
  case (Cons name names)
  obtain r1 io1 where c1: "client_call (client a) (read_work_queue_by_name env name)
             (ReadWorkQueueByName name) io = (r1, io1)"
    by (cases "client_call (client a) (read_work_queue_by_name env name)
             (ReadWorkQueueByName name) io")
  obtain r2 io2 where c2: "client_call (client a) (create_work_queue env name)
                     (CreateWorkQueue name) io1 = (r2, io2)"
    by (cases "client_call (client a) (create_work_queue env name)
                     (CreateWorkQueue name) io1")
  from Cons.prems c1 c2 show ?case
    by (auto split: sum.splits prod.splits if_splits dest!: Cons.IH)
qed

lemma get_work_queues_read:
  assumes "get_work_queues env now body acc a io = (r, acc', a', io')"
  shows "(cache_is_live a now \<longleftrightarrow>
            (case work_queue_cache_expiration a of None \<Rightarrow> False | Some e \<Rightarrow> now < e)) \<and>
         (cache_is_live a now \<longrightarrow>
            a' = a \<and> (acc', io') = foldl (\<lambda>s queue. body queue s) (acc, io) (work_queue_cache a)) \<and>
         (\<not> cache_is_live a now \<longrightarrow> work_queue_cache_expiration a' = Some (now + 30)) \<and>
         (case work_queue_cache_expiration a' of None \<Rightarrow> False | Some e \<Rightarrow> now < e)"
proof (cases "cache_is_live a now")
  case True
  from get_work_queues_live [OF assms True] True show ?thesis
    by (auto simp: cache_is_live_def split: option.splits)
next
  case False
  with assms have "reload_work_queues env body (work_queues a) acc
      (a\<lparr>work_queue_cache := [], work_queue_cache_expiration := Some (now + 30)\<rparr>) io
        = (r, acc', a', io')"
    by (simp add: get_work_queues_def)
  from reload_keeps_expiration [OF this] False show ?thesis
    by (auto simp: cache_is_live_def split: option.splits)
qed

lemma get_work_queues_cache_inv:
  assumes "get_work_queues env now body acc a io = (r, acc', a', io')" and "cache_inv a"
  shows "cache_inv a'"
proof (cases "cache_is_live a now")
  case True
  from get_work_queues_live [OF assms(1) True] assms(2) show ?thesis by simp
next
  case False
  with get_work_queues_read [OF assms(1)] show ?thesis
    by (simp add: cache_inv_def)
qed

lemma tick_cache_inv:
  assumes "get_and_submit_flow_runs env nb now a io = (r, a', io')" and "cache_inv a"
  shows "cache_inv a'"
proof (cases "started a")
  case False
  with assms show ?thesis by (simp add: get_and_submit_flow_runs_def)
next
  case True
  with assms(1) show ?thesis
  proof (rule tick_unfold)
    fix e runs
    assume "get_work_queues env now (process_queue env (client a) (nb + prefetch_window env a))
         [] a (emit (Log DEBUG CheckingForFlowRuns) io) = (Some e, runs, a', io')"
    from get_work_queues_cache_inv [OF this assms(2)] show ?thesis .
  next
    fix runs a1 io1 rs
    assume g: "get_work_queues env now (process_queue env (client a) (nb + prefetch_window env a))
         [] a (emit (Log DEBUG CheckingForFlowRuns) io) = (None, runs, a1, io1)"
      and s: "submit_loop runs a1 io1 = (rs, a', io')"
    from get_work_queues_cache_inv [OF g assms(2)] have "cache_inv a1" .
    with submit_loop_spawn_rel [OF s, of 0] show ?thesis by (auto simp: cache_inv_def)
  qed
qed

lemma submit_run_keeps_cache:
  assumes "submit_run env fr a io = (r, a', io')"
  shows "work_queue_cache a' = work_queue_cache a \<and>
         work_queue_cache_expiration a' = work_queue_cache_expiration a"
  using assms
  by (auto simp: submit_run_def finish_run_def remove_submitting_def
      split: prod.splits sum.splits if_splits bool.splits)

lemma perform_cache_inv:
  assumes "perform env act (a, io) = (a', io')" and "cache_inv a"
  shows "cache_inv a'"
proof (cases act)
  case (Tick nb now)
  obtain r a1 io1 where g: "get_and_submit_flow_runs env nb now a io = (r, a1, io1)"
    by (cases "get_and_submit_flow_runs env nb now a io") auto
  with assms(1) Tick have "a' = a1" by simp
  with tick_cache_inv [OF g assms(2)] show ?thesis by simp
next
  case (Coordinator k)
  show ?thesis
  proof (cases "task_group a")
    case None
    with assms Coordinator show ?thesis by simp
  next
    case (Some tg)
    show ?thesis
    proof (cases "k < length tg")
      case False
      with assms Coordinator Some show ?thesis by simp
    next
      case True
      let ?a = "a\<lparr>task_group := Some (take k tg @ drop (Suc k) tg)\<rparr>"
      obtain r a1 io1 where s: "submit_run env (tg ! k) ?a io = (r, a1, io1)"
        by (cases "submit_run env (tg ! k) ?a io") auto
      with assms(1) Coordinator Some True have "a' = a1" by simp
      with submit_run_keeps_cache [OF s] assms(2) show ?thesis
        by (simp add: cache_inv_def)
    qed
  qed
qed

lemma lifetime_cache_inv:
  assumes "lifetime env acts (a, io) = (a', io')" and "cache_inv a"
  shows "cache_inv a'"
  using assms
proof (induction acts arbitrary: a io)
  case Nil
  then show ?case by (simp add: lifetime_def)
next
  case (Cons act acts)
  obtain a1 io1 where p: "perform env act (a, io) = (a1, io1)"
    by (cases "perform env act (a, io)")
  from perform_cache_inv [OF p Cons.prems(2)] have "cache_inv a1" .
  moreover from Cons.prems(1) p have "lifetime env acts (a1, io1) = (a', io')"
    by (simp add: lifetime_def)
  ultimately show ?case by (rule Cons.IH [rotated])
qed

lemma start_of_init_cache_inv:
  assumes "init wqs prefetch default_infra default_infra_id = Inr a_init"
    and "start env a_init io_init = (r, a0, io_start)"
  shows "cache_inv a0"
proof -
  from assms(1) have "work_queue_cache a_init = []"
    by (auto simp: init_def split: if_splits)
  moreover from assms(2) have "work_queue_cache a0 = work_queue_cache a_init"
    by (auto simp: start_def Let_def split: prod.splits sum.splits option.splits if_splits)
  ultimately show ?thesis by (simp add: cache_inv_def)
qed

lemma process_queue_no_lookup:
  assumes "process_queue env cl b q (acc, io) = (acc', io')"
  shows "\<exists>t. io_trace io' = io_trace io @ t \<and>
             concat (map obtained t) = [] \<and> concat (map looked_up t) = []"
  using assms
  by (auto simp: process_queue_def client_call_def emit_def
      split: if_splits option.splits prod.splits sum.splits)

lemma cached_queues_no_lookup:
  assumes "foldl (\<lambda>s queue. process_queue env cl b queue s) (acc, io) qs = (acc', io')"
  shows "\<exists>t. io_trace io' = io_trace io @ t \<and>
             concat (map obtained t) = [] \<and> concat (map looked_up t) = []"
  using assms
proof (induction qs arbitrary: acc io)
  case Nil
  then show ?case by (intro exI [of _ "[]"]) simp
next
  case (Cons q qs)
  obtain acc1 io1 where b: "process_queue env cl b q (acc, io) = (acc1, io1)"
    by (cases "process_queue env cl b q (acc, io)")
  from process_queue_no_lookup [OF b] obtain tq where
    q: "io_trace io1 = io_trace io @ tq" "concat (map obtained tq) = []"
       "concat (map looked_up tq) = []"
    by auto
  from Cons.prems b
  have "foldl (\<lambda>s queue. process_queue env cl b queue s) (acc1, io1) qs = (acc', io')"
    by simp
  from Cons.IH [OF this] obtain t where
    i: "io_trace io' = io_trace io1 @ t" "concat (map obtained t) = []"
       "concat (map looked_up t) = []"
    by auto
  with q show ?case by (intro exI [of _ "tq @ t"]) simp
qed

lemma reload_lookups:
  assumes "reload_work_queues env (process_queue env cl b) names acc a io = (r, acc', a', io')"
  shows "\<exists>t. io_trace io' = io_trace io @ t \<and>
             work_queue_cache a' = work_queue_cache a @ concat (map obtained t) \<and>
             (r = None \<longrightarrow> concat (map looked_up t) = names)"
  using assms
proof (induction names arbitrary: acc a io)
  case Nil
  then show ?case by (intro exI [of _ "[]"]) simp
next
  case (Cons name names)
  let ?body = "process_queue env cl b"
  have yield: "\<exists>t. io_trace io' = io_trace iox @ t \<and>
        work_queue_cache a' = work_queue_cache a @ [wq] @ concat (map obtained t) \<and>
        (r = None \<longrightarrow> concat (map looked_up t) = names)"
    if y: "(case ?body wq (acc, iox) of
             (acc2, io2) \<Rightarrow> reload_work_queues env ?body names acc2
                 (a\<lparr>work_queue_cache := work_queue_cache a @ [wq]\<rparr>) io2) = (r, acc', a', io')"
    for wq iox
  proof -
    obtain acc2 io2 where b: "?body wq (acc, iox) = (acc2, io2)"
      by (cases "?body wq (acc, iox)")
    from process_queue_no_lookup [OF b] obtain tq where
      q: "io_trace io2 = io_trace iox @ tq" "concat (map obtained tq) = []"
         "concat (map looked_up tq) = []"
      by auto
    from y b have "reload_work_queues env ?body names acc2
                 (a\<lparr>work_queue_cache := work_queue_cache a @ [wq]\<rparr>) io2 = (r, acc', a', io')"
      by simp
    from Cons.IH [OF this] obtain t where
      i: "io_trace io' = io_trace io2 @ t"
         "work_queue_cache a' = (work_queue_cache a @ [wq]) @ concat (map obtained t)"
         "r = None \<longrightarrow> concat (map looked_up t) = names"
      by auto
    with q show ?thesis by (intro exI [of _ "tq @ t"]) simp
  qed
  obtain r1 io1 where c1: "client_call (client a) (read_work_queue_by_name env name)
             (ReadWorkQueueByName name) io = (r1, io1)"
    by (cases "client_call (client a) (read_work_queue_by_name env name)
             (ReadWorkQueueByName name) io")
  from c1 show ?case
  proof (rule client_call_cases)
    assume n: "client a = None" "r1 = Inl AttributeError" "io1 = io"
    with Cons.prems c1 have "r = Some AttributeError" "a' = a" "io' = io"
      by simp_all
    then show ?thesis by (intro exI [of _ "[]"]) simp
  next
    assume cl: "client a \<noteq> None"
      and t1: "io_trace io1 = io_trace io @ [ReadWorkQueueByName name r1]"
    show ?thesis
    proof (cases r1)
      case (Inr wq)
      with Cons.prems c1 obtain t where
        "io_trace io' = io_trace io1 @ t"
        "work_queue_cache a' = work_queue_cache a @ [wq] @ concat (map obtained t)"
        "r = None \<longrightarrow> concat (map looked_up t) = names"
        using yield [of wq io1] by auto
      with t1 Inr show ?thesis
        by (intro exI [of _ "ReadWorkQueueByName name r1 # t"]) simp
    next
      case (Inl e)
      show ?thesis
      proof (cases "e = ObjectNotFound")
        case False
        with Inl Cons.prems c1 have "r = Some e" "a' = a" "io' = io1"
          by auto
        with t1 Inl show ?thesis
          by (intro exI [of _ "[ReadWorkQueueByName name r1]"]) simp
      next
        case True
        obtain r2 io2 where c2: "client_call (client a) (create_work_queue env name)
                     (CreateWorkQueue name) io1 = (r2, io2)"
          by (cases "client_call (client a) (create_work_queue env name)
                     (CreateWorkQueue name) io1")
        with cl have t2: "io_trace io2 = io_trace io1 @ [CreateWorkQueue name r2]"
          by (auto elim: client_call_cases)
        show ?thesis
        proof (cases r2)
          case (Inr wq)
          let ?io3 = "emit (Log INFO (CreatedWorkQueue name)) io2"
          from Inr True Inl Cons.prems c1 c2 obtain t where
            "io_trace io' = io_trace ?io3 @ t"
            "work_queue_cache a' = work_queue_cache a @ [wq] @ concat (map obtained t)"
            "r = None \<longrightarrow> concat (map looked_up t) = names"
            using yield [of wq ?io3] by auto
          with t1 t2 Inr Inl show ?thesis
            by (intro exI [of _ "ReadWorkQueueByName name r1 # CreateWorkQueue name r2 #
                  Log INFO (CreatedWorkQueue name) # t"])
               (simp add: emit_def)
        next
          case (Inl exc)
          let ?io3 = "emit (Log ERROR (FailedToCreateWorkQueue name)) io2"
          from Inl True \<open>r1 = Inl e\<close> Cons.prems c1 c2
          have "reload_work_queues env ?body names acc a ?io3 = (r, acc', a', io')"
            by simp
          from Cons.IH [OF this] obtain t where
            "io_trace io' = io_trace ?io3 @ t"
            "work_queue_cache a' = work_queue_cache a @ concat (map obtained t)"
            "r = None \<longrightarrow> concat (map looked_up t) = names"
            by auto
          with t1 t2 Inl \<open>r1 = Inl e\<close> show ?thesis
            by (intro exI [of _ "ReadWorkQueueByName name r1 # CreateWorkQueue name r2 #
                  Log ERROR (FailedToCreateWorkQueue name) # t"])
               (simp add: emit_def)
        qed
      qed
    qed
  qed
qed


lemma cache_is_live_iff:
  "cache_is_live a now = (case work_queue_cache_expiration a of None \<Rightarrow> False | Some e \<Rightarrow> now < e)"
  by (simp add: cache_is_live_def split: option.splits)

lemma get_work_queues_lookups:
  assumes "get_work_queues env now (process_queue env cl b) acc a io = (r, acc', a', io')"
  shows "(cache_is_live a now \<longrightarrow>
            concat (map looked_up (new_events io io')) = [] \<and>
            concat (map obtained (new_events io io')) = []) \<and>
         (\<not> cache_is_live a now \<longrightarrow>
            work_queue_cache a' = concat (map obtained (new_events io io')) \<and>
            (r = None \<longrightarrow> concat (map looked_up (new_events io io')) = work_queues a))"
proof (cases "cache_is_live a now")
  case True
  from get_work_queues_live [OF assms True]
  have "foldl (\<lambda>s queue. process_queue env cl b queue s) (acc, io) (work_queue_cache a)
          = (acc', io')"
    by simp
  from cached_queues_no_lookup [OF this] obtain t where
    "io_trace io' = io_trace io @ t" "concat (map obtained t) = []"
    "concat (map looked_up t) = []"
    by auto
  with True show ?thesis by (simp add: new_events_def)
next
  case False
  with assms have "reload_work_queues env (process_queue env cl b) (work_queues a) acc
      (a\<lparr>work_queue_cache := [], work_queue_cache_expiration := Some (now + 30)\<rparr>) io
        = (r, acc', a', io')"
    by (simp add: get_work_queues_def)
  from reload_lookups [OF this] obtain t where
    "io_trace io' = io_trace io @ t"
    "work_queue_cache a' = concat (map obtained t)"
    "r = None \<longrightarrow> concat (map looked_up t) = work_queues a"
    by auto
  with False show ?thesis by (simp add: new_events_def)
qed

text \<open>
  Claim C5, amended. Take an agent built by \<open>__init__\<close>, started, and then taken through
  any ticks and coordinator runs, and a read of the cache by \<open>get_work_queues\<close> at the
  instant \<open>now\<close>, consumed by the loop body of \<open>get_and_submit_flow_runs\<close>. At the read, if
  no expiration is set the cache is empty. When an expiration is set and lies strictly after
  \<open>now\<close>, the cached queues are served: the loop body runs on each of them in order, the
  agent is unchanged and no queue is looked up or created on the server. Otherwise the cache
  is cleared and reloaded: the expiration becomes \<open>now + 30\<close>, the cache after the read holds
  exactly the queues the server returned to this read (read by name, or created), in order,
  and, unless an exception ended the read, each configured name was looked up once, in
  order. After the read an expiration is set and lies strictly after \<open>now\<close>.
\<close>

theorem cache_state_at_read:
  assumes "init wqs prefetch default_infra default_infra_id = Inr a_init"
    and "start env a_init io_init = (rs, a0, io_start)"
    and "lifetime env acts (a0, io_start) = (a, io)"
    and "get_work_queues env now (process_queue env cl b) acc a io = (r, acc', a', io')"
  shows "(work_queue_cache_expiration a = None \<longrightarrow> work_queue_cache a = []) \<and>
         ((case work_queue_cache_expiration a of None \<Rightarrow> False | Some e \<Rightarrow> now < e) \<longrightarrow>
            a' = a \<and>
            (acc', io') =
              foldl (\<lambda>s queue. process_queue env cl b queue s) (acc, io) (work_queue_cache a) \<and>
            concat (map looked_up (new_events io io')) = [] \<and>
            concat (map obtained (new_events io io')) = []) \<and>
         (\<not> (case work_queue_cache_expiration a of None \<Rightarrow> False | Some e \<Rightarrow> now < e) \<longrightarrow>
            work_queue_cache_expiration a' = Some (now + 30) \<and>
            work_queue_cache a' = concat (map obtained (new_events io io')) \<and>
            (r = None \<longrightarrow> concat (map looked_up (new_events io io')) = work_queues a)) \<and>
         (case work_queue_cache_expiration a' of None \<Rightarrow> False | Some e \<Rightarrow> now < e)"
proof -
  have "cache_inv a0"
    using assms(1) assms(2) by (rule start_of_init_cache_inv)
  with assms(3) have "cache_inv a" by (rule lifetime_cache_inv)
  with get_work_queues_read [OF assms(4)] get_work_queues_lookups [OF assms(4)]
  show ?thesis
    unfolding cache_is_live_iff by (simp add: cache_inv_def)
qed

text \<open>The started agent of the concrete server is what \<open>__init__\<close> and \<open>start\<close> build.\<close>

lemma started_agent_built:
  "init wqs None None None = Inr a \<Longrightarrow>
     start (server pending_reply overrides dispatch_reply) a io0 =
       (Inr (), started_agent (remdups wqs) {},
        \<lparr>io_world = (), io_trace = [ClientEnter, SaveInfrastructure Process]\<rparr>)"
  by (auto simp: init_def start_def Let_def server_defs)

text \<open>
  Claim C5, as stated, at two reads. With the single queue name q3, which the server does
  not have and does not let the agent create, the tick at instant 0 leaves an empty cache
  with the expiration 30: the read at instant 10 observes an empty cache with an expiration
  set. With the queue name q1 the tick at instant 0 leaves q1 in the cache with the
  expiration 30: the read at instant 100 observes a non-empty cache whose expiration lies in
  the past.
\<close>

theorem cache_read_counterexample:
  "\<not> spec_cache_invariant
       (fst (lifetime (server (Inr Pending) None (Inr ())) [Tick 0 0]
               (started_agent [''q3''] {}, io0))) 10 \<and>
   \<not> spec_cache_invariant
       (fst (lifetime (server (Inr Pending) None (Inr ())) [Tick 0 0]
               (started_agent [''q1''] {}, io0))) 100"
  by (simp add: spec_cache_invariant_def lifetime_def tick_defs server_defs)

theorem cache_state_at_read_witness:
  "work_queue_cache_expiration (fst (lifetime (server (Inr Pending) None (Inr ())) [Tick 0 0] (snd (start (server (Inr Pending) None (Inr ())) (projr (init [''q1''] None None None)) io0)))) = Some 30 \<and>
   fst (snd (snd (get_work_queues (server (Inr Pending) None (Inr ())) 10 (process_queue (server (Inr Pending) None (Inr ())) (Some ()) 20) [] (fst (lifetime (server (Inr Pending) None (Inr ())) [Tick 0 0] (snd (start (server (Inr Pending) None (Inr ())) (projr (init [''q1''] None None None)) io0)))) (snd (lifetime (server (Inr Pending) None (Inr ())) [Tick 0 0] (snd (start (server (Inr Pending) None (Inr ())) (projr (init [''q1''] None None None)) io0))))))) = fst (lifetime (server (Inr Pending) None (Inr ())) [Tick 0 0] (snd (start (server (Inr Pending) None (Inr ())) (projr (init [''q1''] None None None)) io0))) \<and>
   concat (map looked_up (new_events (snd (lifetime (server (Inr Pending) None (Inr ())) [Tick 0 0] (snd (start (server (Inr Pending) None (Inr ())) (projr (init [''q1''] None None None)) io0)))) (snd (snd (snd (get_work_queues (server (Inr Pending) None (Inr ())) 10 (process_queue (server (Inr Pending) None (Inr ())) (Some ()) 20) [] (fst (lifetime (server (Inr Pending) None (Inr ())) [Tick 0 0] (snd (start (server (Inr Pending) None (Inr ())) (projr (init [''q1''] None None None)) io0)))) (snd (lifetime (server (Inr Pending) None (Inr ())) [Tick 0 0] (snd (start (server (Inr Pending) None (Inr ())) (projr (init [''q1''] None None None)) io0)))))))))) = [] \<and>
   work_queue_cache_expiration (fst (snd (snd (get_work_queues (server (Inr Pending) None (Inr ())) 100 (process_queue (server (Inr Pending) None (Inr ())) (Some ()) 20) [] (fst (lifetime (server (Inr Pending) None (Inr ())) [Tick 0 0] (snd (start (server (Inr Pending) None (Inr ())) (projr (init [''q1''] None None None)) io0)))) (snd (lifetime (server (Inr Pending) None (Inr ())) [Tick 0 0] (snd (start (server (Inr Pending) None (Inr ())) (projr (init [''q1''] None None None)) io0)))))))) = Some 130 \<and>
   work_queue_cache (fst (snd (snd (get_work_queues (server (Inr Pending) None (Inr ())) 100 (process_queue (server (Inr Pending) None (Inr ())) (Some ()) 20) [] (fst (lifetime (server (Inr Pending) None (Inr ())) [Tick 0 0] (snd (start (server (Inr Pending) None (Inr ())) (projr (init [''q1''] None None None)) io0)))) (snd (lifetime (server (Inr Pending) None (Inr ())) [Tick 0 0] (snd (start (server (Inr Pending) None (Inr ())) (projr (init [''q1''] None None None)) io0)))))))) = [q1] \<and>
   concat (map looked_up (new_events (snd (lifetime (server (Inr Pending) None (Inr ())) [Tick 0 0] (snd (start (server (Inr Pending) None (Inr ())) (projr (init [''q1''] None None None)) io0)))) (snd (snd (snd (get_work_queues (server (Inr Pending) None (Inr ())) 100 (process_queue (server (Inr Pending) None (Inr ())) (Some ()) 20) [] (fst (lifetime (server (Inr Pending) None (Inr ())) [Tick 0 0] (snd (start (server (Inr Pending) None (Inr ())) (projr (init [''q1''] None None None)) io0)))) (snd (lifetime (server (Inr Pending) None (Inr ())) [Tick 0 0] (snd (start (server (Inr Pending) None (Inr ())) (projr (init [''q1''] None None None)) io0)))))))))) = [''q1'']"
  using cache_state_at_read
    [of "[''q1'']" None None None "projr (init [''q1''] None None None)" "server (Inr Pending) None (Inr ())" io0
        "fst (start (server (Inr Pending) None (Inr ())) (projr (init [''q1''] None None None)) io0)" "fst (snd (start (server (Inr Pending) None (Inr ())) (projr (init [''q1''] None None None)) io0))" "snd (snd (start (server (Inr Pending) None (Inr ())) (projr (init [''q1''] None None None)) io0))" "[Tick 0 0]"
        "fst (lifetime (server (Inr Pending) None (Inr ())) [Tick 0 0] (snd (start (server (Inr Pending) None (Inr ())) (projr (init [''q1''] None None None)) io0)))" "snd (lifetime (server (Inr Pending) None (Inr ())) [Tick 0 0] (snd (start (server (Inr Pending) None (Inr ())) (projr (init [''q1''] None None None)) io0)))" 10 "Some ()" 20 "[]"
        "fst (get_work_queues (server (Inr Pending) None (Inr ())) 10 (process_queue (server (Inr Pending) None (Inr ())) (Some ()) 20) [] (fst (lifetime (server (Inr Pending) None (Inr ())) [Tick 0 0] (snd (start (server (Inr Pending) None (Inr ())) (projr (init [''q1''] None None None)) io0)))) (snd (lifetime (server (Inr Pending) None (Inr ())) [Tick 0 0] (snd (start (server (Inr Pending) None (Inr ())) (projr (init [''q1''] None None None)) io0)))))" "fst (snd (get_work_queues (server (Inr Pending) None (Inr ())) 10 (process_queue (server (Inr Pending) None (Inr ())) (Some ()) 20) [] (fst (lifetime (server (Inr Pending) None (Inr ())) [Tick 0 0] (snd (start (server (Inr Pending) None (Inr ())) (projr (init [''q1''] None None None)) io0)))) (snd (lifetime (server (Inr Pending) None (Inr ())) [Tick 0 0] (snd (start (server (Inr Pending) None (Inr ())) (projr (init [''q1''] None None None)) io0))))))" "fst (snd (snd (get_work_queues (server (Inr Pending) None (Inr ())) 10 (process_queue (server (Inr Pending) None (Inr ())) (Some ()) 20) [] (fst (lifetime (server (Inr Pending) None (Inr ())) [Tick 0 0] (snd (start (server (Inr Pending) None (Inr ())) (projr (init [''q1''] None None None)) io0)))) (snd (lifetime (server (Inr Pending) None (Inr ())) [Tick 0 0] (snd (start (server (Inr Pending) None (Inr ())) (projr (init [''q1''] None None None)) io0)))))))" "snd (snd (snd (get_work_queues (server (Inr Pending) None (Inr ())) 10 (process_queue (server (Inr Pending) None (Inr ())) (Some ()) 20) [] (fst (lifetime (server (Inr Pending) None (Inr ())) [Tick 0 0] (snd (start (server (Inr Pending) None (Inr ())) (projr (init [''q1''] None None None)) io0)))) (snd (lifetime (server (Inr Pending) None (Inr ())) [Tick 0 0] (snd (start (server (Inr Pending) None (Inr ())) (projr (init [''q1''] None None None)) io0)))))))"]
    cache_state_at_read
    [of "[''q1'']" None None None "projr (init [''q1''] None None None)" "server (Inr Pending) None (Inr ())" io0
        "fst (start (server (Inr Pending) None (Inr ())) (projr (init [''q1''] None None None)) io0)" "fst (snd (start (server (Inr Pending) None (Inr ())) (projr (init [''q1''] None None None)) io0))" "snd (snd (start (server (Inr Pending) None (Inr ())) (projr (init [''q1''] None None None)) io0))" "[Tick 0 0]"
        "fst (lifetime (server (Inr Pending) None (Inr ())) [Tick 0 0] (snd (start (server (Inr Pending) None (Inr ())) (projr (init [''q1''] None None None)) io0)))" "snd (lifetime (server (Inr Pending) None (Inr ())) [Tick 0 0] (snd (start (server (Inr Pending) None (Inr ())) (projr (init [''q1''] None None None)) io0)))" 100 "Some ()" 20 "[]"
        "fst (get_work_queues (server (Inr Pending) None (Inr ())) 100 (process_queue (server (Inr Pending) None (Inr ())) (Some ()) 20) [] (fst (lifetime (server (Inr Pending) None (Inr ())) [Tick 0 0] (snd (start (server (Inr Pending) None (Inr ())) (projr (init [''q1''] None None None)) io0)))) (snd (lifetime (server (Inr Pending) None (Inr ())) [Tick 0 0] (snd (start (server (Inr Pending) None (Inr ())) (projr (init [''q1''] None None None)) io0)))))" "fst (snd (get_work_queues (server (Inr Pending) None (Inr ())) 100 (process_queue (server (Inr Pending) None (Inr ())) (Some ()) 20) [] (fst (lifetime (server (Inr Pending) None (Inr ())) [Tick 0 0] (snd (start (server (Inr Pending) None (Inr ())) (projr (init [''q1''] None None None)) io0)))) (snd (lifetime (server (Inr Pending) None (Inr ())) [Tick 0 0] (snd (start (server (Inr Pending) None (Inr ())) (projr (init [''q1''] None None None)) io0))))))" "fst (snd (snd (get_work_queues (server (Inr Pending) None (Inr ())) 100 (process_queue (server (Inr Pending) None (Inr ())) (Some ()) 20) [] (fst (lifetime (server (Inr Pending) None (Inr ())) [Tick 0 0] (snd (start (server (Inr Pending) None (Inr ())) (projr (init [''q1''] None None None)) io0)))) (snd (lifetime (server (Inr Pending) None (Inr ())) [Tick 0 0] (snd (start (server (Inr Pending) None (Inr ())) (projr (init [''q1''] None None None)) io0)))))))" "snd (snd (snd (get_work_queues (server (Inr Pending) None (Inr ())) 100 (process_queue (server (Inr Pending) None (Inr ())) (Some ()) 20) [] (fst (lifetime (server (Inr Pending) None (Inr ())) [Tick 0 0] (snd (start (server (Inr Pending) None (Inr ())) (projr (init [''q1''] None None None)) io0)))) (snd (lifetime (server (Inr Pending) None (Inr ())) [Tick 0 0] (snd (start (server (Inr Pending) None (Inr ())) (projr (init [''q1''] None None None)) io0)))))))"]
  by (simp add: init_def start_def lifetime_def tick_defs server_defs)

section \<open>The resolver applies the overrides\<close>

lemma apply_overrides_append:
  "apply_overrides d (xs @ ys) =
     (case apply_overrides d xs of Inl e \<Rightarrow> Inl e | Inr d1 \<Rightarrow> apply_overrides d1 ys)"
  by (induction xs arbitrary: d) (auto split: sum.splits)

text \<open>
  Claim C9. The resolver has read the deployment and the block document \<open>doc\<close>; the
  deployment's overrides are \<open>applied\<close>, then the pair \<open>(override, v)\<close>, then \<open>later\<close>; the
  overrides in \<open>applied\<close> have turned the document's data into \<open>d1\<close>. The path of
  \<open>override\<close>, split on the dots, is \<open>pre @ k # rest\<close>, and the descent through \<open>pre\<close>
  arrives at a mapping \<open>kvs\<close> of \<open>d1\<close> that has no key \<open>k\<close>. If \<open>k\<close> is an intermediate
  segment (\<open>rest\<close> is not empty), \<open>get_infrastructure\<close> raises \<open>KeyError k\<close>: no block is
  built, nothing was created on the way, and the later overrides are not applied. If \<open>k\<close>
  is the final segment and the override is the last one, the block is built from the
  document whose data has, at \<open>pre\<close>, the mapping \<open>kvs\<close> with the new key \<open>k\<close> bound to \<open>v\<close>.
\<close>

theorem resolver_override_missing_segment:
  assumes "client a \<noteq> None"
    and "read_deployment env (fr_deployment_id fr) (io_world io) = (Inr dep, w1)"
    and "read_block_document env
           (case dp_infrastructure_document_id dep of
              Some i \<Rightarrow> Some i
            | None \<Rightarrow> default_infrastructure_document_id a) w1 = (Inr doc, w2)"
    and "dp_infra_overrides dep = Some (applied @ (override, v) # later)"
    and "apply_overrides (bd_data doc) applied = Inr d1"
    and "split_dot override = pre @ k # rest"
    and "descend (JDict d1) pre = Inr (JDict kvs)"
    and "map_of kvs k = None"
  shows "(rest \<noteq> [] \<longrightarrow> fst (get_infrastructure env a fr io) = Inl (KeyError k)) \<and>
         (rest = [] \<and> later = [] \<longrightarrow>
            (\<exists>d'. fst (get_infrastructure env a fr io) =
                    from_block_document env (doc\<lparr>bd_data := d'\<rparr>) \<and>
                  descend (JDict d') pre = Inr (JDict (kvs @ [(k, v)]))))"
proof -
  have g: "fst (get_infrastructure env a fr io) =
      (case apply_overrides (bd_data doc) (applied @ (override, v) # later) of
         Inl e \<Rightarrow> Inl e
       | Inr infra_dict \<Rightarrow> from_block_document env (doc\<lparr>bd_data := infra_dict\<rparr>))"
    using assms(1-4)
    by (auto simp: get_infrastructure_def client_call_def or_else_def Let_def
        split: sum.splits)
  have o: "apply_overrides (bd_data doc) (applied @ (override, v) # later) =
      (case apply_override d1 override v of
         Inl e \<Rightarrow> Inl e
       | Inr d' \<Rightarrow> apply_overrides d' later)"
    using assms(5) by (simp add: apply_overrides_append)
  from override_missing_segment [OF assms(6) assms(7) assms(8), of v]
  have m: "rest \<noteq> [] \<longrightarrow> apply_override d1 override v = Inl (KeyError k)"
    and c: "rest = [] \<longrightarrow>
            (\<exists>d'. apply_override d1 override v = Inr d' \<and>
                  descend (JDict d') pre = Inr (JDict (kvs @ [(k, v)])))"
    by simp_all
  show ?thesis
  proof (intro conjI impI)
    assume "rest \<noteq> []"
    with m g o show "fst (get_infrastructure env a fr io) = Inl (KeyError k)" by simp
  next
    assume h: "rest = [] \<and> later = []"
    with c obtain d' where d': "apply_override d1 override v = Inr d'"
        "descend (JDict d') pre = Inr (JDict (kvs @ [(k, v)]))"
      by auto
    with g o h have "fst (get_infrastructure env a fr io) =
        from_block_document env (doc\<lparr>bd_data := d'\<rparr>)"
      by simp
    with d'(2) show "\<exists>d'. fst (get_infrastructure env a fr io) =
                    from_block_document env (doc\<lparr>bd_data := d'\<rparr>) \<and>
                  descend (JDict d') pre = Inr (JDict (kvs @ [(k, v)]))"
      by blast
  qed
qed

theorem resolver_override_missing_segment_witness:
  "fst (get_infrastructure
          (server (Inr Pending) (Some [(''env.A'', JNum 1), (''env.B'', JNum 2)]) (Inr ()))
          (started_agent [''q1''] {7}) run7 io0) =
     Inr \<lparr>inf_type = ''process'',
          inf_fields = [(''env'', JDict [(''A'', JNum 1), (''B'', JNum 2)]), (''command'', JNull)],
          inf_block_document_id = Some 5\<rparr> \<and>
   fst (get_infrastructure
          (server (Inr Pending)
             (Some [(''env.A'', JNum 1), (''missing.FOO'', JStr ''bar''), (''env.C'', JNum 3)])
             (Inr ()))
          (started_agent [''q1''] {7}) run7 io0) = Inl (KeyError ''missing'')"
  using resolver_override_missing_segment
      [where a = "started_agent [''q1''] {7}"
         and env = "server (Inr Pending) (Some [(''env.A'', JNum 1), (''env.B'', JNum 2)]) (Inr ())"
         and fr = run7 and io = io0
         and dep = "\<lparr>dp_infrastructure_document_id = Some 5,
                      dp_infra_overrides = Some [(''env.A'', JNum 1), (''env.B'', JNum 2)]\<rparr>"
         and ?w1.0 = "()" and doc = doc5 and ?w2.0 = "()"
         and applied = "[(''env.A'', JNum 1)]" and override = "''env.B''" and v = "JNum 2"
         and later = "[]" and ?d1.0 = "[(''env'', JDict [(''A'', JNum 1)]), (''command'', JNull)]"
         and pre = "[''env'']" and k = "''B''" and rest = "[]" and kvs = "[(''A'', JNum 1)]"]
    resolver_override_missing_segment
      [where a = "started_agent [''q1''] {7}"
         and env = "server (Inr Pending)
             (Some [(''env.A'', JNum 1), (''missing.FOO'', JStr ''bar''), (''env.C'', JNum 3)])
             (Inr ())"
         and fr = run7 and io = io0
         and dep = "\<lparr>dp_infrastructure_document_id = Some 5,
                      dp_infra_overrides = Some [(''env.A'', JNum 1),
                        (''missing.FOO'', JStr ''bar''), (''env.C'', JNum 3)]\<rparr>"
         and ?w1.0 = "()" and doc = doc5 and ?w2.0 = "()"
         and applied = "[(''env.A'', JNum 1)]" and override = "''missing.FOO''"
         and v = "JStr ''bar''"
         and later = "[(''env.C'', JNum 3)]"
         and ?d1.0 = "[(''env'', JDict [(''A'', JNum 1)]), (''command'', JNull)]"
         and pre = "[]" and k = "''missing''" and rest = "[''FOO'']"
         and kvs = "[(''env'', JDict [(''A'', JNum 1)]), (''command'', JNull)]"]
  by (simp add: coordinator_defs server_defs)

section \<open>Deduplication across ticks\<close>

lemma once_rel_nil: "once_rel i ids ids []"
  by (simp add: once_rel_def)

lemma once_rel_append:
  assumes "once_rel i ids ids1 t1" and "once_rel i ids1 ids2 t2"
  shows "once_rel i ids ids2 (t1 @ t2)"
proof (cases "filter (spawns i) t1 = []")
  case True
  with assms show ?thesis by (auto simp: once_rel_def)
next
  case False
  with assms have "filter (spawns i) t2 = []" by (auto simp: once_rel_def)
  with assms show ?thesis by (auto simp: once_rel_def)
qed

lemma tick_once:
  assumes "get_and_submit_flow_runs env nb now a io = (r, a', io')"
  shows "\<exists>t. io_trace io' = io_trace io @ t \<and>
             once_rel i (submitting_flow_run_ids a) (submitting_flow_run_ids a') t"
proof (cases "started a")
  case False
  with assms have "a' = a" "io' = io" by (simp_all add: get_and_submit_flow_runs_def)
  then show ?thesis by (intro exI [of _ "[]"]) (simp add: once_rel_nil)
next
  case True
  from tick_events [OF assms True, of i] obtain tf ts runs where
    t: "io_trace io' = io_trace io @ Log DEBUG CheckingForFlowRuns # tf @ ts"
       "fetch_rel (client a) (nb + prefetch_window env a) tf (work_queue_cache a') runs"
       "spawn_rel i runs (submitting_flow_run_ids a) (submitting_flow_run_ids a')
             (\<exists>rs. r = Inr rs) ts"
    by blast
  have "filter (spawns i) tf = []"
    using t(2) by (rule fetch_rel_no_spawn)
  with t(3) have "once_rel i (submitting_flow_run_ids a) (submitting_flow_run_ids a')
      (Log DEBUG CheckingForFlowRuns # tf @ ts)"
    by (auto simp: once_rel_def spawn_rel_def)
  with t(1) show ?thesis by blast
qed

lemma no_spawn_refl: "no_spawn_between i io io"
  by (simp add: no_spawn_between_def)

lemma no_spawn_trans:
  "no_spawn_between i io io1 \<Longrightarrow> no_spawn_between i io1 io2 \<Longrightarrow> no_spawn_between i io io2"
  by (auto simp: no_spawn_between_def)

lemma no_spawn_log: "no_spawn_between i io (emit (Log l m) io)"
  by (simp add: no_spawn_between_def emit_def)

lemma propose_pending_state_no_spawn:
  "propose_pending_state env a fr io = (r, io') \<Longrightarrow> no_spawn_between i io io'"
  by (auto simp: propose_pending_state_def client_call_def emit_def no_spawn_between_def
      split: option.splits prod.splits sum.splits exn.splits if_splits)

lemma get_infrastructure_no_spawn:
  "get_infrastructure env a fr io = (r, io') \<Longrightarrow> no_spawn_between i io io'"
  by (auto simp: get_infrastructure_def client_call_def Let_def no_spawn_between_def
      split: option.splits prod.splits sum.splits)

lemma task_group_start_no_spawn:
  "task_group_start env a fr infra io = (r, io') \<Longrightarrow> no_spawn_between i io io'"
  by (auto simp: task_group_start_def no_spawn_between_def split: option.splits prod.splits)

lemma propose_failed_state_no_spawn:
  "propose_failed_state env a fr exc io = (r, io') \<Longrightarrow> no_spawn_between i io io'"
  by (auto simp: propose_failed_state_def client_call_def emit_def no_spawn_between_def
      split: option.splits prod.splits sum.splits exn.splits)

lemma finish_run_ids:
  "finish_run fr a io = (r, a', io') \<Longrightarrow>
     io' = io \<and> (\<forall>i. i \<noteq> fr_id fr \<longrightarrow>
        (i \<in> submitting_flow_run_ids a') = (i \<in> submitting_flow_run_ids a))"
  by (auto simp: finish_run_def remove_submitting_def split: if_splits)

lemma submit_run_other:
  assumes "submit_run env fr a io = (r, a', io')" and "fr_id fr \<noteq> i"
  shows "no_spawn_between i io io' \<and>
         (i \<in> submitting_flow_run_ids a') = (i \<in> submitting_flow_run_ids a)"
proof -
  obtain rp io1 where p: "propose_pending_state env a fr io = (rp, io1)"
    by (cases "propose_pending_state env a fr io")
  note n1 = propose_pending_state_no_spawn [OF p, of i]
  from propose_pending_state_cases [OF p] consider "rp = Inr True" | "rp = Inr False"
    by auto
  then show ?thesis
  proof cases
    case 2
    with p assms(1) have "finish_run fr a io1 = (r, a', io')"
      by (simp add: submit_run_def)
    from finish_run_ids [OF this] assms(2) n1 show ?thesis by auto
  next
    case 1
    obtain rg io2 where g: "get_infrastructure env a fr io1 = (rg, io2)"
      by (cases "get_infrastructure env a fr io1")
    note n2 = no_spawn_trans [OF n1 get_infrastructure_no_spawn [OF g, of i]]
    show ?thesis
    proof (cases rg)
      case (Inl e)
      with 1 p g assms(1) have "a' = a" "io' = io2"
        by (simp_all add: submit_run_def)
      with n2 show ?thesis by simp
    next
      case (Inr infra)
      obtain rt io3 where t: "task_group_start env a fr infra io2 = (rt, io3)"
        by (cases "task_group_start env a fr infra io2")
      note n3 = no_spawn_trans [OF n2 task_group_start_no_spawn [OF t, of i]]
      show ?thesis
      proof (cases rt)
        case (Inr u)
        let ?io = "emit (Log INFO (CompletedSubmission (fr_id fr))) io3"
        from Inr \<open>rg = Inr infra\<close> 1 p g t assms(1)
        have "finish_run fr a ?io = (r, a', io')"
          by (simp add: submit_run_def)
        from finish_run_ids [OF this] assms(2) no_spawn_trans [OF n3 no_spawn_log]
        show ?thesis by auto
      next
        case (Inl exc)
        let ?io = "emit (Log ERROR (FailedToSubmit (fr_id fr))) io3"
        obtain rf io4 where f: "propose_failed_state env a fr exc ?io = (rf, io4)"
          by (cases "propose_failed_state env a fr exc ?io")
        have rf: "rf = Inr ()"
          using propose_failed_state_never_raises [of env a fr exc ?io] f by simp
        note n4 = no_spawn_trans [OF no_spawn_trans [OF n3 no_spawn_log]
            propose_failed_state_no_spawn [OF f, of i]]
        from Inl \<open>rg = Inr infra\<close> 1 p g t f rf assms(1)
        have "finish_run fr a io4 = (r, a', io')"
          by (simp add: submit_run_def)
        from finish_run_ids [OF this] assms(2) n4 show ?thesis by auto
      qed
    qed
  qed
qed

lemma perform_once:
  assumes "perform env act (a, io) = (a', io')" and "others_only env i [act] (a, io)"
  shows "\<exists>t. io_trace io' = io_trace io @ t \<and>
             once_rel i (submitting_flow_run_ids a) (submitting_flow_run_ids a') t"
proof (cases act)
  case (Tick nb now)
  obtain r a1 io1 where g: "get_and_submit_flow_runs env nb now a io = (r, a1, io1)"
    by (cases "get_and_submit_flow_runs env nb now a io") auto
  with assms(1) Tick have "a' = a1" "io' = io1" by simp_all
  with tick_once [OF g, of i] show ?thesis by simp
next
  case (Coordinator k)
  show ?thesis
  proof (cases "task_group a")
    case None
    with assms(1) Coordinator have "a' = a" "io' = io" by simp_all
    then show ?thesis by (intro exI [of _ "[]"]) (simp add: once_rel_nil)
  next
    case (Some tg)
    show ?thesis
    proof (cases "k < length tg")
      case False
      with Some assms(1) Coordinator have "a' = a" "io' = io" by simp_all
      then show ?thesis by (intro exI [of _ "[]"]) (simp add: once_rel_nil)
    next
      case True
      let ?a = "a\<lparr>task_group := Some (take k tg @ drop (Suc k) tg)\<rparr>"
      obtain r a1 io1 where s: "submit_run env (tg ! k) ?a io = (r, a1, io1)"
        by (cases "submit_run env (tg ! k) ?a io") auto
      with assms(1) Coordinator Some True have e: "a' = a1" "io' = io1" by simp_all
      from assms(2) Coordinator Some True have "fr_id (tg ! k) \<noteq> i" by simp
      from submit_run_other [OF s this] obtain t where
        "io_trace io1 = io_trace io @ t" "filter (spawns i) t = []"
        "(i \<in> submitting_flow_run_ids a1) = (i \<in> submitting_flow_run_ids a)"
        by (auto simp: no_spawn_between_def)
      with e show ?thesis
        by (intro exI [of _ t]) (simp add: once_rel_def)
    qed
  qed
qed

lemma steps_once:
  assumes "lifetime env acts (a, io) = (a', io')" and "others_only env i acts (a, io)"
  shows "\<exists>t. io_trace io' = io_trace io @ t \<and>
             once_rel i (submitting_flow_run_ids a) (submitting_flow_run_ids a') t"
  using assms
proof (induction acts arbitrary: a io)
  case Nil
  then show ?case by (intro exI [of _ "[]"]) (simp add: lifetime_def once_rel_nil)
next
  case (Cons act acts)
  obtain a1 io1 where p: "perform env act (a, io) = (a1, io1)"
    by (cases "perform env act (a, io)")
  from Cons.prems(2) have o1: "others_only env i [act] (a, io)"
    and o2: "others_only env i acts (a1, io1)"
    using p by simp_all
  from perform_once [OF p o1] obtain t1 where
    t1: "io_trace io1 = io_trace io @ t1"
        "once_rel i (submitting_flow_run_ids a) (submitting_flow_run_ids a1) t1"
    by blast
  from Cons.prems(1) p have "lifetime env acts (a1, io1) = (a', io')"
    by (simp add: lifetime_def)
  from Cons.IH [OF this o2] obtain t2 where
    t2: "io_trace io' = io_trace io1 @ t2"
        "once_rel i (submitting_flow_run_ids a1) (submitting_flow_run_ids a') t2"
    by auto
  from t1(2) t2(2) have "once_rel i (submitting_flow_run_ids a) (submitting_flow_run_ids a')
      (t1 @ t2)"
    by (rule once_rel_append)
  with t1(1) t2(1) show ?case by (intro exI [of _ "t1 @ t2"]) simp
qed


text \<open>
  Claim C6, amended. Take a tick and, after it, any ticks and coordinator runs among which
  no coordinator of a run with the identifier \<open>i\<close> finishes. Over this stretch at most one
  coordinator is spawned for \<open>i\<close>; none is spawned when \<open>i\<close> was in
  \<open>submitting_flow_run_ids\<close> at the start (the ticks skip the run); exactly one is spawned
  when \<open>i\<close> was not in flight and the first tick returned a run with this identifier,
  however often the following ticks return it again.
\<close>

theorem spawned_once_while_in_flight:
  assumes "get_and_submit_flow_runs env now_before now a io = (r, a1, io1)"
    and "lifetime env acts (a1, io1) = (a2, io2)"
    and "others_only env i acts (a1, io1)"
  shows "length (filter (spawns i) (new_events io io2)) \<le> 1 \<and>
         (i \<in> submitting_flow_run_ids a \<longrightarrow> filter (spawns i) (new_events io io2) = []) \<and>
         ((\<exists>runs. r = Inr runs \<and> i \<in> fr_id ` set runs) \<and> i \<notin> submitting_flow_run_ids a \<longrightarrow>
            length (filter (spawns i) (new_events io io2)) = 1)"
proof -
  from tick_once [OF assms(1), of i] obtain t1 where
    t1: "io_trace io1 = io_trace io @ t1"
        "once_rel i (submitting_flow_run_ids a) (submitting_flow_run_ids a1) t1"
    by blast
  from steps_once [OF assms(2) assms(3)] obtain t2 where
    t2: "io_trace io2 = io_trace io1 @ t2"
        "once_rel i (submitting_flow_run_ids a1) (submitting_flow_run_ids a2) t2"
    by blast
  have n: "new_events io io2 = t1 @ t2"
    using t1(1) t2(1) by (simp add: new_events_def)
  from t1(2) t2(2) have o: "once_rel i (submitting_flow_run_ids a) (submitting_flow_run_ids a2)
      (t1 @ t2)"
    by (rule once_rel_append)
  have "length (filter (spawns i) (t1 @ t2)) = 1"
    if h: "\<exists>runs. r = Inr runs \<and> i \<in> fr_id ` set runs" "i \<notin> submitting_flow_run_ids a"
  proof -
    from h(1) assms(1) have st: "started a"
      by (auto simp: get_and_submit_flow_runs_def split: if_splits)
    from tick_events [OF assms(1) st, of i] obtain tf ts runs where
      t: "io_trace io1 = io_trace io @ Log DEBUG CheckingForFlowRuns # tf @ ts"
         "fetch_rel (client a) (now_before + prefetch_window env a) tf (work_queue_cache a1) runs"
         "\<forall>rs. r = Inr rs \<longrightarrow> rs = runs"
         "spawn_rel i runs (submitting_flow_run_ids a) (submitting_flow_run_ids a1)
             (\<exists>rs. r = Inr rs) ts"
      by blast
    from h(1) t(3) have in_runs: "(\<exists>rs. r = Inr rs) \<and> i \<in> fr_id ` set runs" by auto
    have e1: "t1 = Log DEBUG CheckingForFlowRuns # tf @ ts"
      using t(1) t1(1) by simp
    have "filter (spawns i) tf = []"
      using t(2) by (rule fetch_rel_no_spawn)
    moreover from t(4) in_runs h(2) have "length (filter (spawns i) ts) = 1"
      and "i \<in> submitting_flow_run_ids a1"
      by (simp_all add: spawn_rel_def)
    moreover from this(2) t2(2) have "filter (spawns i) t2 = []"
      by (simp add: once_rel_def)
    ultimately show ?thesis using e1 by simp
  qed
  with o n show ?thesis by (simp add: once_rel_def)
qed

text \<open>
  Claim C6, as stated, at a server that returns run 7 in every tick and accepts every Pending
  proposal (a run rescheduled after its first submission): the first tick spawns the
  coordinator, the coordinator submits the run and removes the identifier, and the next tick,
  five seconds later, spawns a second coordinator, which hands the run to the infrastructure
  a second time.
\<close>

theorem run_dispatched_twice:
  "length (filter (dispatches 7) (io_trace (snd (lifetime (server (Inr Pending) None (Inr ()))
      [Tick 0 0, Coordinator 0, Tick 5 5, Coordinator 0] (started_agent [''q1''] {}, io0))))) = 2 \<and>
   length (filter (spawns 7) (io_trace (snd (lifetime (server (Inr Pending) None (Inr ()))
      [Tick 0 0, Coordinator 0, Tick 5 5] (started_agent [''q1''] {}, io0))))) = 2"
  by (simp add: lifetime_def tick_defs coordinator_defs server_defs)

text \<open>The theorem at an agent that holds the coordinator of run 8: the first tick spawns
  the coordinator of run 7, the coordinator of run 8 runs, and the next tick returns run 7
  again.\<close>

theorem spawned_once_while_in_flight_witness:
  "length (filter (spawns 7) (new_events io0 (snd (lifetime (server (Inr Pending) None (Inr ())) [Coordinator 0, Tick 5 5] (snd (get_and_submit_flow_runs (server (Inr Pending) None (Inr ())) 0 0 ((started_agent [''q1''] {8})\<lparr>task_group := Some [run8]\<rparr>) io0)))))) = 1"
  using spawned_once_while_in_flight
    [of "server (Inr Pending) None (Inr ())" 0 0 "(started_agent [''q1''] {8})\<lparr>task_group := Some [run8]\<rparr>" io0
        "fst (get_and_submit_flow_runs (server (Inr Pending) None (Inr ())) 0 0 ((started_agent [''q1''] {8})\<lparr>task_group := Some [run8]\<rparr>) io0)"
        "fst (snd (get_and_submit_flow_runs (server (Inr Pending) None (Inr ())) 0 0 ((started_agent [''q1''] {8})\<lparr>task_group := Some [run8]\<rparr>) io0))"
        "snd (snd (get_and_submit_flow_runs (server (Inr Pending) None (Inr ())) 0 0 ((started_agent [''q1''] {8})\<lparr>task_group := Some [run8]\<rparr>) io0))"
        "[Coordinator 0, Tick 5 5]"
        "fst (lifetime (server (Inr Pending) None (Inr ())) [Coordinator 0, Tick 5 5] (snd (get_and_submit_flow_runs (server (Inr Pending) None (Inr ())) 0 0 ((started_agent [''q1''] {8})\<lparr>task_group := Some [run8]\<rparr>) io0)))"
        "snd (lifetime (server (Inr Pending) None (Inr ())) [Coordinator 0, Tick 5 5] (snd (get_and_submit_flow_runs (server (Inr Pending) None (Inr ())) 0 0 ((started_agent [''q1''] {8})\<lparr>task_group := Some [run8]\<rparr>) io0)))"
        7]
  by (simp add: lifetime_def tick_defs coordinator_defs server_defs)

end
